theory Spec2Isabelle
  imports Main "HOL-Library.Sublist"
begin

section \<open>Thrown values and the logger\<close>

text \<open>
  What a JavaScript \<^verbatim>\<open>throw\<close> can carry, as far as \<^verbatim>\<open>getErrorMessage\<close> tells the cases
  apart: an \<^verbatim>\<open>Error\<close> object (a \<^verbatim>\<open>TypeError\<close> is one too), a string, or anything else.
  The message of a \<^verbatim>\<open>TypeError\<close> is the engine's; nothing below depends on its wording.
\<close>

datatype js_error = Error string | TypeError string | ThrownString string | ThrownOther

fun getErrorMessage :: "js_error \<Rightarrow> string" where
  "getErrorMessage (Error m) = m"
| "getErrorMessage (TypeError m) = m"
| "getErrorMessage (ThrownString s) = s"
| "getErrorMessage ThrownOther = ''Unknown error''"

datatype log_level = Debug | Warn | ErrorLevel

text \<open>One line written through a logger: the label the logger was forked with, the level, the message.\<close>

type_synonym log_line = "string \<times> log_level \<times> string"

section \<open>Blocks of the remote API\<close>

text \<open>
  A Notion file object, the payload of an image or video block: the tagged union
  \<^verbatim>\<open>{type: "external", external: {url}, caption}\<close> or
  \<^verbatim>\<open>{type: "file", file: {url, expiry_time}, caption}\<close>. A caption (rich text) is kept as
  the list of its plain texts.
\<close>

type_synonym caption = "string list"

datatype file_object =
    External (ext_url: string) (fcaption: caption)
  | File (file_url: string) (expiry_time: string) (fcaption: caption)

fun ftype :: "file_object \<Rightarrow> string" where
  "ftype (External u c) = ''external''"
| "ftype (File u e c) = ''file''"

text \<open>
  A block's \<^verbatim>\<open>type\<close> tag with the payload stored under that key: \<^verbatim>\<open>block.image\<close>,
  \<^verbatim>\<open>block.video\<close>, or, for every other kind, the tag and its payload (opaque here).
\<close>

datatype payload = Image file_object | Video file_object | Other string string

record block =
  block_id :: string
  has_children :: bool
  payload :: payload

text \<open>
  An entry of a children listing: \<^verbatim>\<open>isFullBlock\<close> tells a full block from a partial one,
  which carries an id only.
\<close>

datatype api_object = PartialBlock string | FullBlock block

text \<open>
  \<^verbatim>\<open>iteratePaginatedAPI(client.blocks.children.list, {block_id})\<close>: the entries the iteration
  hands out, page after page, and the error with which fetching a further page fails, if one does.
  The client is the function from a block id to that listing.
\<close>

type_synonym listing = "api_object list \<times> js_error option"

type_synonym client = "string \<Rightarrow> listing"

section \<open>Blocks as yielded\<close>

text \<open>
  The payload written for a media block, \<^verbatim>\<open>{type: T, [T]: url, caption}\<close>: the tag, the
  string stored under the key the tag names, and the caption. It has no other property.
\<close>

record media_ref =
  mtype :: string
  murl :: string
  mcaption :: caption

text \<open>
  A yielded block: the spread \<^verbatim>\<open>...block\<close> keeps id and \<^verbatim>\<open>has_children\<close>; the payload
  is the rewritten media payload, or the source payload with the \<^verbatim>\<open>children\<close> property that
  was stored into it (absent when none was stored).
\<close>

datatype out_block = OutBlock (out_id: string) (out_has_children: bool) (out_payload: out_payload)
and out_payload =
    OutImage media_ref
  | OutVideo media_ref
  | OutOther string string "out_block list option"

text \<open>The \<^verbatim>\<open>children\<close> property of a yielded block's payload, \<open>None\<close> when it has none.\<close>

fun out_children :: "out_block \<Rightarrow> out_block list option" where
  "out_children (OutBlock i h (OutImage m)) = None"
| "out_children (OutBlock i h (OutVideo m)) = None"
| "out_children (OutBlock i h (OutOther t content children)) = children"

section \<open>The block generator\<close>

text \<open>
  How a run of asynchronous code ends in the model: it returns a value, it throws, or the
  recursion budget of the model was too small to follow it to its end.
\<close>

datatype ('a, 's) run = OutOfFuel | Threw js_error 's | Done 'a 's

text \<open>
  Lines 64 to 93 of \<^verbatim>\<open>listBlocks\<close>, the yield for one full block after its children were
  stored: an image block gets the url that \<^verbatim>\<open>fetchImage(block.image)\<close> returns, a video block
  the url read from its own fields, any other block is yielded as it is. \<open>fetchImage\<close> acts on
  a state of the caller's.
\<close>

definition yield_block ::
  "(file_object \<Rightarrow> 's \<Rightarrow> string \<times> 's) \<Rightarrow> block \<Rightarrow> out_block list option \<Rightarrow> 's \<Rightarrow> out_block \<times> 's" where
  "yield_block fetchImage blk children s =
     (case payload blk of
        Image img \<Rightarrow>
          (case fetchImage img s of
             (url, s') \<Rightarrow>
               (OutBlock (block_id blk) (has_children blk)
                  (OutImage \<lparr>mtype = ftype img, murl = url, mcaption = fcaption img\<rparr>), s'))
      | Video vid \<Rightarrow>
          (OutBlock (block_id blk) (has_children blk)
             (OutVideo \<lparr>mtype = ftype vid,
                        murl = (if ftype vid = ''external'' then ext_url vid else file_url vid),
                        mcaption = fcaption vid\<rparr>), s)
      | Other t content \<Rightarrow>
          (OutBlock (block_id blk) (has_children blk) (OutOther t content children), s))"

text \<open>
  \<^verbatim>\<open>awaitAll(listBlocks(client, blockId, fetchImage))\<close>: the blocks the generator yields, drained
  into a list, or the error it throws. \<open>for_await\<close> is the loop over the listing's entries:
  a partial block is skipped; a block with \<^verbatim>\<open>has_children\<close> has its children listed and
  drained first; then the block is yielded. The budget bounds the nesting depth that is followed.
\<close>

fun listBlocks ::
  "nat \<Rightarrow> client \<Rightarrow> string \<Rightarrow> (file_object \<Rightarrow> 's \<Rightarrow> string \<times> 's) \<Rightarrow> 's \<Rightarrow> (out_block list, 's) run"
and for_await ::
  "nat \<Rightarrow> client \<Rightarrow> api_object list \<Rightarrow> js_error option \<Rightarrow> (file_object \<Rightarrow> 's \<Rightarrow> string \<times> 's) \<Rightarrow> 's
     \<Rightarrow> (out_block list, 's) run"
where
  "listBlocks 0 client blockId fetchImage s = OutOfFuel"
| "listBlocks (Suc fuel) client blockId fetchImage s =
     for_await fuel client (fst (client blockId)) (snd (client blockId)) fetchImage s"
| "for_await fuel client [] None fetchImage s = Done [] s"
| "for_await fuel client [] (Some e) fetchImage s = Threw e s"
| "for_await fuel client (PartialBlock i # rest) failure fetchImage s =
     for_await fuel client rest failure fetchImage s"
| "for_await fuel client (FullBlock blk # rest) failure fetchImage s =
     (case (if has_children blk
            then (case listBlocks fuel client (block_id blk) fetchImage s of
                    OutOfFuel \<Rightarrow> OutOfFuel
                  | Threw e s1 \<Rightarrow> Threw e s1
                  | Done children s1 \<Rightarrow> Done (Some children) s1)
            else Done None s) of
        OutOfFuel \<Rightarrow> OutOfFuel
      | Threw e s1 \<Rightarrow> Threw e s1
      | Done children s1 \<Rightarrow>
          (case yield_block fetchImage blk children s1 of
             (out, s2) \<Rightarrow>
               (case for_await fuel client rest failure fetchImage s2 of
                  OutOfFuel \<Rightarrow> OutOfFuel
                | Threw e s3 \<Rightarrow> Threw e s3
                | Done outs s3 \<Rightarrow> Done (out # outs) s3)))"

text \<open>
  Lines 59 to 63, named for the proofs: the children stored into a block that declares some,
  \<open>None\<close> for a block that declares none (no \<^verbatim>\<open>children\<close> property is stored then).
\<close>

definition awaited_children ::
  "nat \<Rightarrow> client \<Rightarrow> block \<Rightarrow> (file_object \<Rightarrow> 's \<Rightarrow> string \<times> 's) \<Rightarrow> 's
     \<Rightarrow> (out_block list option, 's) run" where
  "awaited_children fuel c blk fetchImage s =
     (if has_children blk
      then (case listBlocks fuel c (block_id blk) fetchImage s of
              OutOfFuel \<Rightarrow> OutOfFuel
            | Threw e s1 \<Rightarrow> Threw e s1
            | Done children s1 \<Rightarrow> Done (Some children) s1)
      else Done None s)"

section \<open>The page renderer\<close>

text \<open>
  \<^verbatim>\<open>./format.js\<close> is not among the sources; its two functions are parameters.
  \<^verbatim>\<open>fileToImageAsset\<close> resolves a file object to a local asset or throws;
  \<^verbatim>\<open>fileToUrl\<close> gives the remote url of a file object, and is taken to return. What either
  gives depends on the file object only.
\<close>

record image_asset =
  src :: string

record format_js =
  fileToImageAsset :: "file_object \<Rightarrow> js_error + image_asset"
  fileToUrl :: "file_object \<Rightarrow> string"

text \<open>
  A \<^verbatim>\<open>NotionPageRenderer\<close> instance: the fields \<^verbatim>\<open>client\<close>, \<^verbatim>\<open>page\<close> (its id) and
  \<^verbatim>\<open>#imagePaths\<close>, the label of \<^verbatim>\<open>#logger\<close>, and two traces of what the instance did to
  its collaborators: the lines it logged, and the arguments of its calls of
  \<^verbatim>\<open>fileToImageAsset\<close>, in call order.
\<close>

record renderer =
  client :: client
  page_id :: string
  priv_imagePaths :: "string list"
  logger_label :: string
  logged :: "log_line list"
  asset_calls :: "file_object list"

definition write_log :: "log_level \<Rightarrow> string \<Rightarrow> renderer \<Rightarrow> renderer" where
  "write_log lvl msg this = this\<lparr>logged := logged this @ [(logger_label this, lvl, msg)]\<rparr>"

text \<open>
  The constructor. \<open>pageTitle\<close> is what \<^verbatim>\<open>title.safeParse(page.properties.Name)\<close> gave:
  the title, or the text of the parse error.
\<close>

definition NotionPageRenderer :: "client \<Rightarrow> string \<Rightarrow> string + string \<Rightarrow> renderer" where
  "NotionPageRenderer c pid pageTitle =
     (let this = \<lparr>client = c, page_id = pid, priv_imagePaths = [],
                   logger_label = ''page '' @ pid @ '' (Name ''
                     @ (case pageTitle of Inr t \<Rightarrow> t | Inl err \<Rightarrow> ''unknown'') @ '')'',
                   logged = [], asset_calls = []\<rparr>
      in case pageTitle of
           Inr t \<Rightarrow> this
         | Inl err \<Rightarrow> write_log Warn (''Failed to parse property Name as title: '' @ err) this)"

definition fetch_failed_text :: string where
  "fetch_failed_text =
     ''Failed to fetch image when rendering page.'' @ [CHR 0x0A]
     @ ''Have you added '' @ [CHR 0x60] @ ''image: { remotePatterns: [{ protocol: '' @ [CHR 0x22]
     @ ''https'' @ [CHR 0x22] @ '', hostname: '' @ [CHR 0x22] @ ''*.amazonaws.com'' @ [CHR 0x22]
     @ '' }] }'' @ [CHR 0x60] @ '' to your Astro config file?'' @ [CHR 0x0A, CHR 0x0A]
     @ ''Error: ''"

text \<open>
  \<^verbatim>\<open>#fetchImage\<close>: on success the asset's \<^verbatim>\<open>src\<close> is pushed onto \<^verbatim>\<open>#imagePaths\<close> and
  returned; on failure the error is logged and the remote url is returned.
\<close>

definition fetchImage :: "format_js \<Rightarrow> file_object \<Rightarrow> renderer \<Rightarrow> string \<times> renderer" where
  "fetchImage fmt imageFileObject this =
     (let called = this\<lparr>asset_calls := asset_calls this @ [imageFileObject]\<rparr>
      in case fileToImageAsset fmt imageFileObject of
           Inr fetchedImageData \<Rightarrow>
             (src fetchedImageData,
              called\<lparr>priv_imagePaths := priv_imagePaths called @ [src fetchedImageData]\<rparr>)
         | Inl err \<Rightarrow>
             (fileToUrl fmt imageFileObject,
              write_log ErrorLevel (fetch_failed_text @ getErrorMessage err) called))"

text \<open>A heading of the outline. \<open>htext\<close> is \<open>None\<close> where the JavaScript value is \<^verbatim>\<open>undefined\<close>.\<close>

record heading =
  depth :: nat
  htext :: "string option"
  slug :: string

text \<open>What \<^verbatim>\<open>process\<close> resolves to, and what \<^verbatim>\<open>render\<close> returns.\<close>

record processed =
  vFile :: string
  proc_headings :: "heading list"

record metadata =
  headings :: "heading list"
  imagePaths :: "string list"

record rendered_entry =
  html :: string
  metadata :: metadata

text \<open>
  \<^verbatim>\<open>render(process)\<close>. \<open>process\<close> is given by what it settles to for a list of blocks. The
  result is \<open>Done None\<close> for \<^verbatim>\<open>undefined\<close>. The \<^verbatim>\<open>imagePaths\<close> of the entry is the
  instance's own array: the entry is given here with the array's content at the moment of the
  return, and a later call of \<^verbatim>\<open>render\<close> pushes onto that same array.
\<close>

definition render ::
  "nat \<Rightarrow> format_js \<Rightarrow> (out_block list \<Rightarrow> js_error + processed) \<Rightarrow> renderer
     \<Rightarrow> (rendered_entry option, renderer) run" where
  "render fuel fmt process this =
     (case listBlocks fuel (client this) (page_id this) (fetchImage fmt)
             (write_log Debug ''Rendering'' this) of
        OutOfFuel \<Rightarrow> OutOfFuel
      | Threw err this1 \<Rightarrow>
          Done None (write_log ErrorLevel (''Failed to render: '' @ getErrorMessage err) this1)
      | Done blocks this1 \<Rightarrow>
          (case process blocks of
             Inl err \<Rightarrow>
               Done None (write_log ErrorLevel (''Failed to render: '' @ getErrorMessage err) this1)
           | Inr r \<Rightarrow>
               Done (Some \<lparr>html = vFile r,
                            metadata = \<lparr>headings = proc_headings r,
                                        imagePaths = priv_imagePaths this1\<rparr>\<rparr>)
                    (write_log Debug ''Rendered'' this1)))"

section \<open>The outline extractor\<close>

text \<open>
  A node of the markup tree: an element with its tag name, the \<^verbatim>\<open>href\<close> of its properties
  (if it has one) and its children, or a text node with its value.
\<close>

datatype hast = Element string "string option" "hast list" | Text string

text \<open>\<^verbatim>\<open>node.value\<close>: a text node's value, \<^verbatim>\<open>undefined\<close> on an element.\<close>

fun node_value :: "hast \<Rightarrow> string option" where
  "node_value (Text v) = Some v"
| "node_value (Element t h cs) = None"

text \<open>
  The record built for one item from its link: \<^verbatim>\<open>link.children[0].value\<close> as text and
  \<^verbatim>\<open>link.properties.href.slice(1)\<close> as slug.
\<close>

definition currentHeading :: "nat \<Rightarrow> hast \<Rightarrow> string \<Rightarrow> heading" where
  "currentHeading d first href = \<lparr>depth = d, htext = node_value first, slug = drop 1 href\<rparr>"

text \<open>
  \<^verbatim>\<open>listElementToTree(ol, depth)\<close> with its \<^verbatim>\<open>flatMap\<close> over \<^verbatim>\<open>ol.children\<close> and the
  callback for one \<^verbatim>\<open>li\<close>, whose children are destructured into the link and the sub-list
  (absent when there is no second child). Every read of a property of \<^verbatim>\<open>undefined\<close> is the
  \<^verbatim>\<open>TypeError\<close> the engine throws there.
\<close>

fun listElementToTree :: "hast \<Rightarrow> nat \<Rightarrow> js_error + heading list"
and flatMap_li :: "hast list \<Rightarrow> nat \<Rightarrow> js_error + heading list"
and li_headings :: "hast \<Rightarrow> nat \<Rightarrow> js_error + heading list"
where
  "listElementToTree (Text v) d =
     Inl (TypeError ''Cannot read properties of undefined (reading 'flatMap')'')"
| "listElementToTree (Element t h lis) d = flatMap_li lis d"
| "flatMap_li [] d = Inr []"
| "flatMap_li (li # rest) d =
     (case li_headings li d of
        Inl e \<Rightarrow> Inl e
      | Inr hs \<Rightarrow> (case flatMap_li rest d of Inl e \<Rightarrow> Inl e | Inr later \<Rightarrow> Inr (hs @ later)))"
| "li_headings (Text v) d = Inl (TypeError ''undefined is not iterable (cannot read property Symbol(Symbol.iterator))'')"
| "li_headings (Element t h []) d =
     Inl (TypeError ''Cannot read properties of undefined (reading 'children')'')"
| "li_headings (Element t h (Text v # after)) d =
     Inl (TypeError ''Cannot read properties of undefined (reading '0')'')"
| "li_headings (Element t h (Element lt lh [] # after)) d =
     Inl (TypeError ''Cannot read properties of undefined (reading 'value')'')"
| "li_headings (Element t h (Element lt None (first # others) # after)) d =
     Inl (TypeError ''Cannot read properties of undefined (reading 'slice')'')"
| "li_headings (Element t h [Element lt (Some href) (first # others)]) d =
     Inr [currentHeading d first href]"
| "li_headings (Element t h (Element lt (Some href) (first # others) # subList # others')) d =
     (case listElementToTree subList (d + 1) of
        Inl e \<Rightarrow> Inl e
      | Inr hs \<Rightarrow> Inr ([currentHeading d first href] @ hs))"

definition extractTocHeadings :: "hast \<Rightarrow> js_error + heading list" where
  "extractTocHeadings toc =
     (case toc of
        Text v \<Rightarrow> Inl (Error ''Expected nav, got undefined'')
      | Element tagName h cs \<Rightarrow>
          if tagName \<noteq> ''nav'' then Inl (Error (''Expected nav, got '' @ tagName))
          else (case cs of
                  [] \<Rightarrow> Inl (TypeError ''Cannot read properties of undefined (reading 'children')'')
                | first # others \<Rightarrow> listElementToTree first 0))"

section \<open>The transform pipeline\<close>

text \<open>
  The assembled unified chain is a collaborator; one run of it on a document is given by what it
  does to this code: a stage before the table-of-contents stage throws, or that stage hands a
  tree to \<^verbatim>\<open>customizeTOC\<close> and the stages after it throw or serialise the document.
\<close>

datatype pipeline_run = FailsBeforeToc js_error | ReachesToc hast "js_error + string"

type_synonym processor = "out_block list \<Rightarrow> pipeline_run"

text \<open>
  What \<^verbatim>\<open>buildProcessor\<close> leaves in the closure of \<^verbatim>\<open>process\<close>: the variable
  \<^verbatim>\<open>headings\<close> and what \<^verbatim>\<open>processorPromise\<close> settles to.
\<close>

record pipeline =
  processorPromise :: "js_error + processor"
  headings_var :: "heading list"

definition buildProcessor :: "js_error + processor \<Rightarrow> pipeline" where
  "buildProcessor assembled = \<lparr>processorPromise = assembled, headings_var = []\<rparr>"

text \<open>
  One call of \<^verbatim>\<open>process\<close> runs in two uninterrupted stretches. \<open>process_start\<close> goes from
  the call to the point where \<^verbatim>\<open>await processor.process(...)\<close> is settled: the chain has
  run and \<^verbatim>\<open>customizeTOC\<close> has assigned \<^verbatim>\<open>headings\<close>. \<open>process_finish\<close> is the
  resumption after that \<^verbatim>\<open>await\<close>: it reads \<^verbatim>\<open>headings\<close> and returns. Other code can
  run between the two.
\<close>

definition process_start :: "out_block list \<Rightarrow> pipeline \<Rightarrow> (js_error + string) \<times> pipeline" where
  "process_start blocks p =
     (case processorPromise p of
        Inl e \<Rightarrow> (Inl e, p)
      | Inr processor \<Rightarrow>
          (case processor blocks of
             FailsBeforeToc e \<Rightarrow> (Inl e, p)
           | ReachesToc toc rest \<Rightarrow>
               (case extractTocHeadings toc of
                  Inl e \<Rightarrow> (Inl e, p)
                | Inr hs \<Rightarrow> (rest, p\<lparr>headings_var := hs\<rparr>))))"

definition process_finish :: "js_error + string \<Rightarrow> pipeline \<Rightarrow> js_error + processed" where
  "process_finish settled p =
     (case settled of
        Inl e \<Rightarrow> Inl e
      | Inr v \<Rightarrow> Inr \<lparr>vFile = v, proc_headings = headings_var p\<rparr>)"

text \<open>A call of \<^verbatim>\<open>process\<close> that nothing interrupts.\<close>

definition process :: "out_block list \<Rightarrow> pipeline \<Rightarrow> (js_error + processed) \<times> pipeline" where
  "process blocks p =
     (case process_start blocks p of (settled, p') \<Rightarrow> (process_finish settled p', p'))"

section \<open>Notions used to state the properties\<close>

text \<open>The state in which a run ended, and the value it returned.\<close>

fun run_state :: "('a, 's) run \<Rightarrow> 's option" where
  "run_state OutOfFuel = None"
| "run_state (Threw e s) = Some s"
| "run_state (Done a s) = Some s"

fun run_value :: "('a, 's) run \<Rightarrow> 'a option" where
  "run_value OutOfFuel = None"
| "run_value (Threw e s) = None"
| "run_value (Done a s) = Some a"

text \<open>A run with its state forgotten.\<close>

fun outcome_of :: "('a, 's) run \<Rightarrow> ('a, unit) run" where
  "outcome_of OutOfFuel = OutOfFuel"
| "outcome_of (Threw e s) = Threw e ()"
| "outcome_of (Done a s) = Done a ()"

text \<open>
  A \<^verbatim>\<open>fetchImage\<close> that has no state and no resolver: it returns the url that \<open>u\<close> assigns
  to the file object.
\<close>

definition plain_fetch :: "(file_object \<Rightarrow> string) \<Rightarrow> file_object \<Rightarrow> unit \<Rightarrow> string \<times> unit" where
  "plain_fetch u f x = (u f, x)"

text \<open>The local references that the resolver gives for a sequence of requests: one per success.\<close>

fun successes :: "format_js \<Rightarrow> file_object list \<Rightarrow> string list" where
  "successes fmt [] = []"
| "successes fmt (f # fs) =
     (case fileToImageAsset fmt f of
        Inr asset \<Rightarrow> src asset # successes fmt fs
      | Inl e \<Rightarrow> successes fmt fs)"

definition always_fails :: "format_js \<Rightarrow> bool" where
  "always_fails fmt = (\<forall>f. \<exists>e. fileToImageAsset fmt f = Inl e)"

text \<open>The resolver request that yielding one block makes: its file object, for an image block.\<close>

definition own_request :: "block \<Rightarrow> file_object list" where
  "own_request blk =
     (case payload blk of Image img \<Rightarrow> [img] | Video vid \<Rightarrow> [] | Other t content \<Rightarrow> [])"

text \<open>
  The image blocks below a block id in the order in which the materialization asks the resolver
  for them: the entries of a listing in their order, partial blocks left out, and for one entry
  the image blocks nested in it before the entry's own image. The budget bounds the depth as it
  does for \<open>listBlocks\<close>.
\<close>

fun image_requests :: "nat \<Rightarrow> client \<Rightarrow> string \<Rightarrow> file_object list"
and image_requests_in :: "nat \<Rightarrow> client \<Rightarrow> api_object list \<Rightarrow> file_object list"
where
  "image_requests 0 c blockId = []"
| "image_requests (Suc n) c blockId = image_requests_in n c (fst (c blockId))"
| "image_requests_in n c [] = []"
| "image_requests_in n c (PartialBlock i # rest) = image_requests_in n c rest"
| "image_requests_in n c (FullBlock blk # rest) =
     (if has_children blk then image_requests n c (block_id blk) else [])
     @ own_request blk @ image_requests_in n c rest"

text \<open>
  The image blocks below a block id in document order, as the specification words it:
  depth-first, pre-order, a block before the blocks nested in it.
\<close>

fun document_order :: "nat \<Rightarrow> client \<Rightarrow> string \<Rightarrow> file_object list"
and document_order_in :: "nat \<Rightarrow> client \<Rightarrow> api_object list \<Rightarrow> file_object list"
where
  "document_order 0 c blockId = []"
| "document_order (Suc n) c blockId = document_order_in n c (fst (c blockId))"
| "document_order_in n c [] = []"
| "document_order_in n c (PartialBlock i # rest) = document_order_in n c rest"
| "document_order_in n c (FullBlock blk # rest) =
     own_request blk
     @ (if has_children blk then document_order n c (block_id blk) else [])
     @ document_order_in n c rest"

text \<open>
  What a stretch of a materialization did to an instance, given the requests it made to the
  resolver: the requests were appended to the calls, their successes to \<^verbatim>\<open>#imagePaths\<close>, and
  the instance's client, page and logger label are as before.
\<close>

definition resolved :: "format_js \<Rightarrow> file_object list \<Rightarrow> renderer \<Rightarrow> renderer \<Rightarrow> bool" where
  "resolved fmt reqs s s' =
     (asset_calls s' = asset_calls s @ reqs
      \<and> priv_imagePaths s' = priv_imagePaths s @ successes fmt reqs
      \<and> client s' = client s \<and> page_id s' = page_id s \<and> logger_label s' = logger_label s)"

text \<open>
  The remote tree below a block id has finite depth: the blocks that declare children have,
  in turn, listings of finite depth.
\<close>

inductive finite_depth :: "client \<Rightarrow> string \<Rightarrow> bool" for c :: client where
  listing:
    "(\<And>blk. FullBlock blk \<in> set (fst (c blockId)) \<Longrightarrow> has_children blk
        \<Longrightarrow> finite_depth c (block_id blk))
     \<Longrightarrow> finite_depth c blockId"

text \<open>
  The block ids whose children a materialization from \<open>root\<close> may ask for; a tree without
  image blocks; and a tree without media blocks, where no full block listed under any of those
  ids is an image or a video.
\<close>

inductive_set listed_ids :: "client \<Rightarrow> string \<Rightarrow> string set" for c :: client and root :: string where
  root: "root \<in> listed_ids c root"
| child:
    "parent \<in> listed_ids c root \<Longrightarrow> FullBlock blk \<in> set (fst (c parent)) \<Longrightarrow> has_children blk
     \<Longrightarrow> block_id blk \<in> listed_ids c root"

fun is_image :: "payload \<Rightarrow> bool" where
  "is_image (Image img) = True"
| "is_image (Video vid) = False"
| "is_image (Other t content) = False"

definition image_free :: "client \<Rightarrow> string \<Rightarrow> bool" where
  "image_free c root =
     (\<forall>parent \<in> listed_ids c root. \<forall>blk. FullBlock blk \<in> set (fst (c parent)) \<longrightarrow> \<not> is_image (payload blk))"

text \<open>A tree in which no image block declares children.\<close>

definition childless_images :: "client \<Rightarrow> string \<Rightarrow> bool" where
  "childless_images c root =
     (\<forall>parent \<in> listed_ids c root. \<forall>blk.
        FullBlock blk \<in> set (fst (c parent)) \<and> is_image (payload blk) \<longrightarrow> \<not> has_children blk)"

fun is_media :: "payload \<Rightarrow> bool" where
  "is_media (Image img) = True"
| "is_media (Video vid) = True"
| "is_media (Other t content) = False"

definition media_free :: "client \<Rightarrow> string \<Rightarrow> bool" where
  "media_free c root =
     (\<forall>parent \<in> listed_ids c root. \<forall>blk. FullBlock blk \<in> set (fst (c parent)) \<longrightarrow> \<not> is_media (payload blk))"

text \<open>
  The states an instance goes through: as constructed, or after one more call of
  \<^verbatim>\<open>render\<close> that came back.
\<close>

inductive lifetime :: "format_js \<Rightarrow> renderer \<Rightarrow> renderer \<Rightarrow> bool"
  for fmt :: format_js and r0 :: renderer where
  constructed: "lifetime fmt r0 r0"
| rendered:
    "lifetime fmt r0 this \<Longrightarrow> render fuel fmt proc this = Done res this'
     \<Longrightarrow> lifetime fmt r0 this'"

text \<open>
  The shape under which the extractor reads a list without a \<^verbatim>\<open>TypeError\<close>: an element
  whose children are items, an item being an element that starts with a link (an element with an
  \<^verbatim>\<open>href\<close> and at least one child), followed by nothing or by a nested list of that shape.
\<close>

fun list_shape :: "hast \<Rightarrow> bool"
and items_shape :: "hast list \<Rightarrow> bool"
and item_shape :: "hast \<Rightarrow> bool"
where
  "list_shape (Text v) = False"
| "list_shape (Element t h lis) = items_shape lis"
| "items_shape [] = True"
| "items_shape (li # rest) = (item_shape li \<and> items_shape rest)"
| "item_shape (Element t h (Element lt (Some href) (first # others) # [])) = True"
| "item_shape (Element t h (Element lt (Some href) (first # others) # subList # others')) =
     list_shape subList"
| "item_shape li = False"

text \<open>
  The shape the specification names: a root \<^verbatim>\<open>nav\<close> element wrapping exactly one child, an
  element (the top-level list).
\<close>

fun wraps_one_list :: "hast \<Rightarrow> bool" where
  "wraps_one_list (Element t h [Element lt lh lis]) = (t = ''nav'')"
| "wraps_one_list other = False"

text \<open>
  The navigation tree as the table-of-contents stage builds it, from an outline given as nested
  items: \<^verbatim>\<open><nav><ol><li><a href="#slug">label</a><ol>...</ol></li>...</ol></nav>\<close>, the
  nested \<^verbatim>\<open><ol>\<close> present where an item has sub-headings.
\<close>

datatype toc_item = TocItem string string "toc_item list option"

fun ol_of :: "toc_item list \<Rightarrow> hast"
and lis_of :: "toc_item list \<Rightarrow> hast list"
and li_of :: "toc_item \<Rightarrow> hast"
where
  "ol_of entries = Element ''ol'' None (lis_of entries)"
| "lis_of [] = []"
| "lis_of (item # rest) = li_of item # lis_of rest"
| "li_of (TocItem label anchor None) =
     Element ''li'' None [Element ''a'' (Some (CHR ''#'' # anchor)) [Text label]]"
| "li_of (TocItem label anchor (Some nested)) =
     Element ''li'' None [Element ''a'' (Some (CHR ''#'' # anchor)) [Text label], ol_of nested]"

definition nav_of :: "toc_item list \<Rightarrow> hast" where
  "nav_of entries = Element ''nav'' None [ol_of entries]"

text \<open>
  The outline as the specification words it: pre-order, the top-level list at depth 0, a
  nested list one deeper than its item, the label as text and the anchor as slug.
\<close>

fun outline :: "nat \<Rightarrow> toc_item list \<Rightarrow> heading list" where
  "outline d [] = []"
| "outline d (TocItem label anchor nested # rest) =
     \<lparr>depth = d, htext = Some label, slug = anchor\<rparr>
     # (case nested of None \<Rightarrow> [] | Some sub \<Rightarrow> outline (Suc d) sub)
     @ outline d rest"

section \<open>Example inputs\<close>

text \<open>A navigation tree with two top-level lists, and the one for headings of levels 1, 2, 2, 1.\<close>

definition two_list_nav :: hast where
  "two_list_nav =
     Element ''nav'' None [ol_of [TocItem ''A'' ''a'' None], ol_of [TocItem ''B'' ''b'' None]]"

definition levels_1221 :: "toc_item list" where
  "levels_1221 =
     [TocItem ''One'' ''one'' (Some [TocItem ''Two'' ''two'' None, TocItem ''Three'' ''three'' None]),
      TocItem ''Four'' ''four'' None]"

text \<open>A remote with a few small pages, a resolver that succeeds and one that fails.\<close>

definition ex_image :: file_object where
  "ex_image = External ''https://img.example/a.png'' [''A'']"

definition ex_video :: file_object where
  "ex_video = File ''https://s3.example/v.mp4'' ''2026-01-01T00:00:00Z'' [''clip'']"

definition image_block :: block where
  "image_block = \<lparr>block_id = ''b1'', has_children = False, payload = Image ex_image\<rparr>"

definition video_block :: block where
  "video_block = \<lparr>block_id = ''b2'', has_children = False, payload = Video ex_video\<rparr>"

definition paragraph_block :: block where
  "paragraph_block = \<lparr>block_id = ''b3'', has_children = False, payload = Other ''paragraph'' ''intro''\<rparr>"

definition toggle_block :: block where
  "toggle_block = \<lparr>block_id = ''t1'', has_children = True, payload = Other ''toggle'' ''More''\<rparr>"

definition parent_image_block :: block where
  "parent_image_block = \<lparr>block_id = ''i1'', has_children = True, payload = Image ex_image\<rparr>"

definition demo_client :: client where
  "demo_client blockId =
     (if blockId = ''page-image'' then ([FullBlock image_block], None)
      else if blockId = ''page-video'' then ([FullBlock video_block], None)
      else if blockId = ''page-text'' then ([FullBlock paragraph_block], None)
      else if blockId = ''page-toggle'' then ([FullBlock toggle_block], None)
      else if blockId = ''t1'' then ([PartialBlock ''p1'', PartialBlock ''p2''], None)
      else if blockId = ''page-parent-image'' then ([FullBlock parent_image_block], None)
      else if blockId = ''i1'' then ([PartialBlock ''p3''], None)
      else if blockId = ''page-broken'' then ([FullBlock paragraph_block], Some (Error ''rate limited''))
      else ([], None))"

definition ex_url :: "file_object \<Rightarrow> string" where
  "ex_url f = (case f of External u cap \<Rightarrow> u | File u e cap \<Rightarrow> u)"

definition fmt_ok :: format_js where
  "fmt_ok = \<lparr>fileToImageAsset = (\<lambda>f. Inr \<lparr>src = ''/_astro/a.png''\<rparr>), fileToUrl = ex_url\<rparr>"

definition fmt_failing :: format_js where
  "fmt_failing = \<lparr>fileToImageAsset = (\<lambda>f. Inl (Error ''not allowed'')), fileToUrl = ex_url\<rparr>"

definition proc_ok :: "out_block list \<Rightarrow> js_error + processed" where
  "proc_ok blocks = Inr \<lparr>vFile = ''<p>intro</p>'', proc_headings = []\<rparr>"

definition proc_failing :: "out_block list \<Rightarrow> js_error + processed" where
  "proc_failing blocks = Inl (ThrownString ''stage failed'')"

definition image_page_renderer :: renderer where
  "image_page_renderer = NotionPageRenderer demo_client ''page-image'' (Inr ''Home'')"

text \<open>The instance after one call of \<^verbatim>\<open>render\<close> on the page with the image.\<close>

definition once_rendered :: renderer where
  "once_rendered =
     (case render (Suc 0) fmt_ok proc_ok image_page_renderer of
        Done res this' \<Rightarrow> this'
      | Threw e this' \<Rightarrow> this'
      | OutOfFuel \<Rightarrow> image_page_renderer)"

text \<open>
  A page whose one block is an image that declares children, with one image nested in it, and a
  resolver that names the local reference after the remote url.
\<close>

definition outer_image :: file_object where
  "outer_image = External ''outer.png'' [''outer'']"

definition inner_image :: file_object where
  "inner_image = External ''inner.png'' [''inner'']"

definition outer_image_block :: block where
  "outer_image_block = \<lparr>block_id = ''o1'', has_children = True, payload = Image outer_image\<rparr>"

definition inner_image_block :: block where
  "inner_image_block = \<lparr>block_id = ''k1'', has_children = False, payload = Image inner_image\<rparr>"

definition nested_client :: client where
  "nested_client blockId =
     (if blockId = ''page-nested'' then ([FullBlock outer_image_block], None)
      else if blockId = ''o1'' then ([FullBlock inner_image_block], None)
      else ([], None))"

definition fmt_by_url :: format_js where
  "fmt_by_url = \<lparr>fileToImageAsset = (\<lambda>f. Inr \<lparr>src = ''/_astro/'' @ ex_url f\<rparr>), fileToUrl = ex_url\<rparr>"

text \<open>
  A chain whose table-of-contents stage lists one item per block, and two documents, each of one
  heading block.
\<close>

definition demo_processor :: processor where
  "demo_processor blocks =
     ReachesToc (nav_of (map (\<lambda>b. TocItem (out_id b) (out_id b) None) blocks))
       (Inr (concat (map out_id blocks)))"

definition doc_a :: "out_block list" where
  "doc_a = [OutBlock ''alpha'' False (OutOther ''heading_1'' ''Alpha'' None)]"

definition doc_b :: "out_block list" where
  "doc_b = [OutBlock ''beta'' False (OutOther ''heading_1'' ''Beta'' None)]"

section \<open>The block generator: its recursion\<close>

lemma for_await_FullBlock:
  "for_await fuel c (FullBlock blk # rest) failure fetch s =
     (case awaited_children fuel c blk fetch s of
        OutOfFuel \<Rightarrow> OutOfFuel
      | Threw e s1 \<Rightarrow> Threw e s1
      | Done kids s1 \<Rightarrow>
          (case for_await fuel c rest failure fetch (snd (yield_block fetch blk kids s1)) of
             OutOfFuel \<Rightarrow> OutOfFuel
           | Threw e s3 \<Rightarrow> Threw e s3
           | Done outs s3 \<Rightarrow> Done (fst (yield_block fetch blk kids s1) # outs) s3))"
  by (auto simp: awaited_children_def split: run.splits prod.splits)

text \<open>Induction along the calls of \<open>listBlocks\<close> and its loop, with the children phase named.\<close>

lemma walk_induct [case_names no_fuel list_children drained failed partial full]:
  fixes P :: "nat \<Rightarrow> client \<Rightarrow> string \<Rightarrow> (file_object \<Rightarrow> 's \<Rightarrow> string \<times> 's) \<Rightarrow> 's \<Rightarrow> bool"
    and Q :: "nat \<Rightarrow> client \<Rightarrow> api_object list \<Rightarrow> js_error option
                \<Rightarrow> (file_object \<Rightarrow> 's \<Rightarrow> string \<times> 's) \<Rightarrow> 's \<Rightarrow> bool"
  assumes "\<And>c blockId fetch s. P 0 c blockId fetch s"
    and "\<And>fuel c blockId fetch s.
          Q fuel c (fst (c blockId)) (snd (c blockId)) fetch s \<Longrightarrow> P (Suc fuel) c blockId fetch s"
    and "\<And>fuel c fetch s. Q fuel c [] None fetch s"
    and "\<And>fuel c e fetch s. Q fuel c [] (Some e) fetch s"
    and "\<And>fuel c i rest failure fetch s.
          Q fuel c rest failure fetch s \<Longrightarrow> Q fuel c (PartialBlock i # rest) failure fetch s"
    and "\<And>fuel c blk rest failure fetch s.
          (has_children blk \<Longrightarrow> P fuel c (block_id blk) fetch s)
          \<Longrightarrow> (\<And>kids s1. awaited_children fuel c blk fetch s = Done kids s1
                \<Longrightarrow> Q fuel c rest failure fetch (snd (yield_block fetch blk kids s1)))
          \<Longrightarrow> Q fuel c (FullBlock blk # rest) failure fetch s"
  shows "P n c blockId fetch s" and "Q n c entries failure fetch s"
proof (induction n c blockId fetch s and n c entries failure fetch s
       rule: listBlocks_for_await.induct)
  case (6 fuel client blk rest failure fetchImage s)
  show ?case
  proof (rule assms(6))
    show "has_children blk \<Longrightarrow> P fuel client (block_id blk) fetchImage s"
      using 6(1) .
    show "Q fuel client rest failure fetchImage (snd (yield_block fetchImage blk kids s1))"
      if "awaited_children fuel client blk fetchImage s = Done kids s1" for kids s1
      using 6(2) [of kids s1 "fst (yield_block fetchImage blk kids s1)"
                     "snd (yield_block fetchImage blk kids s1)"] that
      by (simp add: awaited_children_def)
  qed
qed (auto intro: assms)

subsection \<open>The budget\<close>

text \<open>A run that did not exhaust its budget is the same with any larger budget.\<close>

lemma fuel_Suc:
  "listBlocks n c blockId fetch s \<noteq> OutOfFuel
   \<Longrightarrow> listBlocks (Suc n) c blockId fetch s = listBlocks n c blockId fetch s"
  "for_await n c entries failure fetch s \<noteq> OutOfFuel
   \<Longrightarrow> for_await (Suc n) c entries failure fetch s = for_await n c entries failure fetch s"
proof (induction n c blockId fetch s and n c entries failure fetch s rule: walk_induct)
  case (full fuel c blk rest failure fetch s)
  from full.prems obtain kids s1 where
    kids: "awaited_children fuel c blk fetch s = Done kids s1
           \<or> (\<exists>e. awaited_children fuel c blk fetch s = Threw e s1)"
    unfolding for_await_FullBlock by (cases "awaited_children fuel c blk fetch s") auto
  have same: "awaited_children (Suc fuel) c blk fetch s = awaited_children fuel c blk fetch s"
    using full.IH(1) kids by (auto simp: awaited_children_def split: run.splits if_splits)
  show ?case
  proof (cases "awaited_children fuel c blk fetch s")
    case (Done k s')
    with full.prems
    have "for_await fuel c rest failure fetch (snd (yield_block fetch blk k s')) \<noteq> OutOfFuel"
      unfolding for_await_FullBlock by (auto split: run.splits)
    with full.IH(2) [OF Done] show ?thesis
      unfolding for_await_FullBlock same Done by simp
  qed (simp_all add: for_await_FullBlock same del: for_await.simps)
qed simp_all

lemma fuel_mono:
  assumes "n \<le> m"
  shows "listBlocks n c blockId fetch s \<noteq> OutOfFuel
         \<Longrightarrow> listBlocks m c blockId fetch s = listBlocks n c blockId fetch s"
    and "for_await n c entries failure fetch s \<noteq> OutOfFuel
         \<Longrightarrow> for_await m c entries failure fetch s = for_await n c entries failure fetch s"
  using assms
  by (induction m rule: dec_induct) (simp_all add: fuel_Suc del: listBlocks.simps for_await.simps)

text \<open>Over a remote tree of finite depth some budget suffices, from every state.\<close>

lemma enough_fuel_entries:
  assumes "\<And>blk. FullBlock blk \<in> set entries \<Longrightarrow> has_children blk
             \<Longrightarrow> \<exists>n. \<forall>s. listBlocks n c (block_id blk) fetch s \<noteq> OutOfFuel"
  shows "\<exists>n. \<forall>s. for_await n c entries failure fetch s \<noteq> OutOfFuel"
  using assms
proof (induction entries)
  case Nil
  then show ?case by (cases failure) auto
next
  case (Cons entry rest)
  then obtain n1 where n1: "\<And>s. for_await n1 c rest failure fetch s \<noteq> OutOfFuel"
    by auto
  show ?case
  proof (cases entry)
    case (PartialBlock i)
    with n1 show ?thesis by auto
  next
    case (FullBlock blk)
    obtain n2 where n2: "has_children blk \<Longrightarrow> listBlocks n2 c (block_id blk) fetch s \<noteq> OutOfFuel" for s
      using Cons.prems [of blk] FullBlock by auto
    have kids: "awaited_children (max n1 n2) c blk fetch s \<noteq> OutOfFuel" for s
      using n2 [of s] fuel_mono(1) [of n2 "max n1 n2" c "block_id blk" fetch s]
      by (auto simp: awaited_children_def split: run.splits)
    have others: "for_await (max n1 n2) c rest failure fetch s \<noteq> OutOfFuel" for s
      using n1 [of s] fuel_mono(2) [of n1 "max n1 n2" c rest failure fetch s] by simp
    have "for_await (max n1 n2) c (entry # rest) failure fetch s \<noteq> OutOfFuel" for s
      unfolding FullBlock for_await_FullBlock using kids [of s] others
      by (auto split: run.splits)
    then show ?thesis by blast
  qed
qed

lemma enough_fuel:
  "finite_depth c blockId \<Longrightarrow> \<exists>n. \<forall>s. listBlocks n c blockId fetch s \<noteq> OutOfFuel"
proof (induction rule: finite_depth.induct)
  case (listing blockId)
  then obtain n where
    "\<And>s. for_await n c (fst (c blockId)) (snd (c blockId)) fetch s \<noteq> OutOfFuel"
    using enough_fuel_entries [of "fst (c blockId)" c fetch "snd (c blockId)"] by blast
  then have "\<forall>s. listBlocks (Suc n) c blockId fetch s \<noteq> OutOfFuel" by simp
  then show ?case by blast
qed

subsection \<open>What a materialization does to the instance\<close>

lemma successes_append: "successes fmt (xs @ ys) = successes fmt xs @ successes fmt ys"
  by (induction xs) (auto split: sum.splits)

lemma resolved_refl: "resolved fmt [] s s"
  by (simp add: resolved_def)

lemma resolved_trans:
  "resolved fmt r1 s s1 \<Longrightarrow> resolved fmt r2 s1 s2 \<Longrightarrow> resolved fmt (r1 @ r2) s s2"
  by (simp add: resolved_def successes_append)

lemma resolved_fetchImage: "resolved fmt [f] s (snd (fetchImage fmt f s))"
  by (simp add: resolved_def fetchImage_def write_log_def Let_def split: sum.splits)

lemma resolved_yield_block:
  "resolved fmt (own_request blk) s (snd (yield_block (fetchImage fmt) blk kids s))"
  by (cases "payload blk")
     (simp_all add: yield_block_def resolved_refl resolved_fetchImage own_request_def case_prod_beta)

text \<open>
  A materialization that returns made exactly the requests of \<open>image_requests\<close>, in that order;
  one that throws made some requests; in both cases \<^verbatim>\<open>#imagePaths\<close> grew by the successes.
\<close>

lemma resolved_walk_gen:
  "fetch = fetchImage fmt \<Longrightarrow>
   (case listBlocks n c blockId fetch s of
      OutOfFuel \<Rightarrow> True
    | Threw e s' \<Rightarrow> (\<exists>reqs. resolved fmt reqs s s')
    | Done outs s' \<Rightarrow> resolved fmt (image_requests n c blockId) s s')"
  "fetch = fetchImage fmt \<Longrightarrow>
   (case for_await n c entries failure fetch s of
      OutOfFuel \<Rightarrow> True
    | Threw e s' \<Rightarrow> (\<exists>reqs. resolved fmt reqs s s')
    | Done outs s' \<Rightarrow> resolved fmt (image_requests_in n c entries) s s')"
proof (induction n c blockId fetch s and n c entries failure fetch s rule: walk_induct)
  case (full fuel c blk rest failure fetch s)
  note fetch = \<open>fetch = fetchImage fmt\<close>
  define kid_reqs where
    "kid_reqs = (if has_children blk then image_requests fuel c (block_id blk) else [])"
  show ?case
  proof (cases "awaited_children fuel c blk fetch s")
    case OutOfFuel
    then show ?thesis unfolding for_await_FullBlock by simp
  next
    case (Threw e s1)
    then have "has_children blk"
      and "listBlocks fuel c (block_id blk) fetch s = Threw e s1"
      by (auto simp: awaited_children_def split: if_splits run.splits)
    with full.IH(1) fetch have "\<exists>reqs. resolved fmt reqs s s1" by simp
    with Threw show ?thesis unfolding for_await_FullBlock by simp
  next
    case (Done kids s1)
    have first: "resolved fmt kid_reqs s s1"
      using Done full.IH(1) fetch
      by (auto simp: awaited_children_def kid_reqs_def resolved_refl split: if_splits run.splits)
    define s2 where "s2 = snd (yield_block fetch blk kids s1)"
    have second: "resolved fmt (kid_reqs @ own_request blk) s s2"
      unfolding s2_def fetch by (rule resolved_trans [OF first resolved_yield_block])
    have reqs: "image_requests_in fuel c (FullBlock blk # rest) =
        (kid_reqs @ own_request blk) @ image_requests_in fuel c rest"
      by (simp add: kid_reqs_def)
    have step: "for_await fuel c (FullBlock blk # rest) failure fetch s =
        (case for_await fuel c rest failure fetch s2 of
           OutOfFuel \<Rightarrow> OutOfFuel
         | Threw e s3 \<Rightarrow> Threw e s3
         | Done outs s3 \<Rightarrow> Done (fst (yield_block fetch blk kids s1) # outs) s3)"
      unfolding for_await_FullBlock Done s2_def by simp
    show ?thesis
      unfolding step reqs using full.IH(2) [OF Done fetch] second
      by (auto simp: s2_def [symmetric] simp del: append_assoc split: run.splits
               intro: resolved_trans)
  qed
qed (auto intro: resolved_refl split: run.splits)

lemmas resolved_walk = resolved_walk_gen [OF refl]

subsection \<open>The yielded blocks do not depend on the state\<close>

text \<open>
  With a \<^verbatim>\<open>fetchImage\<close> that returns the url \<open>u\<close> assigns, whatever else it does, the
  materialization ends as the one with the stateless \<open>plain_fetch u\<close> does: the same blocks,
  or the same error.
\<close>

lemma fst_yield_block_plain:
  assumes "\<And>f s. fst (fetch f s) = u f"
  shows "fst (yield_block fetch blk kids s) = fst (yield_block (plain_fetch u) blk kids ())"
  using assms [of _ s]
  by (cases "payload blk") (simp_all add: yield_block_def plain_fetch_def case_prod_beta)

lemma outcome_plain:
  "(\<And>f s. fst (fetch f s) = u f)
   \<Longrightarrow> outcome_of (listBlocks n c blockId fetch s) = listBlocks n c blockId (plain_fetch u) ()"
  "(\<And>f s. fst (fetch f s) = u f)
   \<Longrightarrow> outcome_of (for_await n c entries failure fetch s) = for_await n c entries failure (plain_fetch u) ()"
proof (induction n c blockId fetch s and n c entries failure fetch s rule: walk_induct)
  case (full fuel c blk rest failure fetch s)
  note u = full.prems
  have kids: "outcome_of (awaited_children fuel c blk fetch s) = awaited_children fuel c blk (plain_fetch u) ()"
    using full.IH(1) [OF _ u]
    by (cases "has_children blk"; cases "listBlocks fuel c (block_id blk) fetch s")
       (auto simp: awaited_children_def split: run.splits)
  show ?case
  proof (cases "awaited_children fuel c blk fetch s")
    case (Done k s1)
    with kids have plain: "awaited_children fuel c blk (plain_fetch u) () = Done k ()" by simp
    show ?thesis
      using full.IH(2) [OF Done u, symmetric] fst_yield_block_plain [of fetch u blk k s1, OF u]
      unfolding for_await_FullBlock Done plain
      by (cases "for_await fuel c rest failure fetch (snd (yield_block fetch blk k s1))") auto
  qed (use kids [symmetric] in \<open>auto simp: for_await_FullBlock simp del: for_await.simps\<close>)
qed (auto)

subsection \<open>Trees without image blocks\<close>

text \<open>Where no image block is met, the materialization hands the state through untouched.\<close>

lemma yield_block_no_image:
  "\<not> is_image (payload blk) \<Longrightarrow> snd (yield_block fetch blk kids s) = s"
  by (cases "payload blk") (simp_all add: yield_block_def)

lemma image_free_walk:
  "image_free c root \<Longrightarrow> blockId \<in> listed_ids c root
   \<Longrightarrow> run_state (listBlocks n c blockId fetch s) \<in> {None, Some s}"
  "image_free c root
   \<Longrightarrow> (\<And>blk. FullBlock blk \<in> set entries
         \<Longrightarrow> \<exists>parent \<in> listed_ids c root. FullBlock blk \<in> set (fst (c parent)))
   \<Longrightarrow> run_state (for_await n c entries failure fetch s) \<in> {None, Some s}"
proof (induction n c blockId fetch s and n c entries failure fetch s rule: walk_induct)
  case (list_children fuel c blockId fetch s)
  then show ?case by auto
next
  case (full fuel c blk rest failure fetch s)
  obtain parent where parent: "parent \<in> listed_ids c root" "FullBlock blk \<in> set (fst (c parent))"
    using full.prems(2) [of blk] by auto
  then have plain: "\<not> is_image (payload blk)"
    using full.prems(1) by (auto simp: image_free_def)
  have below: "has_children blk \<Longrightarrow> block_id blk \<in> listed_ids c root"
    using parent by (rule listed_ids.child)
  show ?case
  proof (cases "awaited_children fuel c blk fetch s")
    case OutOfFuel
    then show ?thesis unfolding for_await_FullBlock by simp
  next
    case (Threw e s1)
    then have "s1 = s"
      using full.IH(1) [OF _ full.prems(1)] below
      by (auto simp: awaited_children_def split: if_splits run.splits)
    with Threw show ?thesis unfolding for_await_FullBlock by simp
  next
    case (Done kids s1)
    then have "s1 = s"
      using full.IH(1) [OF _ full.prems(1)] below
      by (auto simp: awaited_children_def split: if_splits run.splits)
    then have "run_state (for_await fuel c rest failure fetch (snd (yield_block fetch blk kids s1)))
        \<in> {None, Some s}"
      using full.IH(2) [OF Done full.prems(1)] full.prems(2) plain
      by (simp add: yield_block_no_image)
    then show ?thesis
      unfolding for_await_FullBlock Done by (auto split: run.splits)
  qed
qed (auto intro: listed_ids.root)

subsection \<open>The order of the resolver calls\<close>

text \<open>
  The calls are made in document order as long as no image block declares children: a block
  other than an image makes no call of its own, and an image block without children has
  nothing nested in it.
\<close>

lemma call_order_is_document_order:
  "childless_images c root \<Longrightarrow> blockId \<in> listed_ids c root
   \<Longrightarrow> image_requests n c blockId = document_order n c blockId"
  "childless_images c root
   \<Longrightarrow> (\<And>blk. FullBlock blk \<in> set entries
         \<Longrightarrow> \<exists>parent \<in> listed_ids c root. FullBlock blk \<in> set (fst (c parent)))
   \<Longrightarrow> image_requests_in n c entries = document_order_in n c entries"
proof (induction n c blockId and n c entries rule: image_requests_image_requests_in.induct)
  case (2 n c blockId)
  then show ?case by auto
next
  case (5 n c blk rest)
  obtain parent where parent: "parent \<in> listed_ids c root" "FullBlock blk \<in> set (fst (c parent))"
    using "5.prems"(2) [of blk] by auto
  have rest: "image_requests_in n c rest = document_order_in n c rest"
    using "5.IH"(2) [OF "5.prems"(1)] "5.prems"(2) by simp
  show ?case
  proof (cases "is_image (payload blk)")
    case True
    then have "\<not> has_children blk"
      using parent "5.prems"(1) by (auto simp: childless_images_def)
    with rest show ?thesis by simp
  next
    case False
    then have none: "own_request blk = []"
      by (cases "payload blk") (simp_all add: own_request_def)
    have "image_requests n c (block_id blk) = document_order n c (block_id blk)"
      if "has_children blk"
      using "5.IH"(1) [OF that "5.prems"(1)] listed_ids.child [OF parent that] by simp
    with rest none show ?thesis by simp
  qed
qed simp_all

lemma media_free_image_free: "media_free c root \<Longrightarrow> image_free c root"
proof -
  have "is_image p \<Longrightarrow> is_media p" for p
    by (cases p) simp_all
  then show "media_free c root \<Longrightarrow> image_free c root"
    unfolding media_free_def image_free_def by blast
qed

section \<open>The page renderer: properties\<close>

lemma resolved_write_log [simp]:
  "resolved fmt reqs (write_log lvl msg s) s' = resolved fmt reqs s s'"
  "resolved fmt reqs s (write_log lvl msg s') = resolved fmt reqs s s'"
  by (simp_all add: resolved_def write_log_def)

lemma render_not_Threw: "render fuel fmt proc this \<noteq> Threw e s"
  by (simp add: render_def split: run.splits sum.splits)

lemma render_resolved:
  assumes "render fuel fmt proc this = Done res this'"
  shows "\<exists>reqs. resolved fmt reqs this this'"
    and "res = Some out \<Longrightarrow>
         resolved fmt (image_requests fuel (client this) (page_id this)) this this'
         \<and> imagePaths (metadata out) = priv_imagePaths this'"
  using assms
    resolved_walk(1) [where n = fuel and c = "client this" and blockId = "page_id this"
        and fmt = fmt and s = "write_log Debug ''Rendering'' this"]
  by (auto simp: render_def write_log_def resolved_def split: run.splits sum.splits)

lemma lifetime_frame:
  "lifetime fmt r0 this \<Longrightarrow>
   client this = client r0 \<and> page_id this = page_id r0 \<and> logger_label this = logger_label r0
   \<and> (\<exists>reqs. asset_calls this = asset_calls r0 @ reqs
         \<and> priv_imagePaths this = priv_imagePaths r0 @ successes fmt reqs)"
proof (induction rule: lifetime.induct)
  case constructed
  then show ?case by simp
next
  case (rendered this fuel proc res this')
  from render_resolved(1) [OF rendered.hyps(2)] obtain reqs where "resolved fmt reqs this this'" ..
  with rendered.IH show ?case
    by (auto simp: resolved_def successes_append [symmetric])
qed


lemmas ex_defs = demo_client_def image_block_def video_block_def paragraph_block_def
  toggle_block_def parent_image_block_def ex_image_def ex_video_def ex_url_def fmt_ok_def
  fmt_failing_def proc_ok_def proc_failing_def

lemmas run_defs = render_def NotionPageRenderer_def yield_block_def fetchImage_def write_log_def

lemma first_render:
  "render (Suc 0) fmt_ok proc_ok image_page_renderer =
     Done (Some \<lparr>html = ''<p>intro</p>'', metadata = \<lparr>headings = [], imagePaths = [''/_astro/a.png'']\<rparr>\<rparr>)
       (image_page_renderer\<lparr>priv_imagePaths := [''/_astro/a.png''],
          logged := [(''page page-image (Name Home)'', Debug, ''Rendering''),
                     (''page page-image (Name Home)'', Debug, ''Rendered'')],
          asset_calls := [ex_image]\<rparr>)"
  by (simp add: image_page_renderer_def run_defs ex_defs)

lemma once_rendered_eq:
  "once_rendered = image_page_renderer\<lparr>priv_imagePaths := [''/_astro/a.png''],
          logged := [(''page page-image (Name Home)'', Debug, ''Rendering''),
                     (''page page-image (Name Home)'', Debug, ''Rendered'')],
          asset_calls := [ex_image]\<rparr>"
  by (simp add: once_rendered_def first_render)


lemma image_requests_budget:
  assumes "listBlocks n c blockId (fetchImage fmt) s \<noteq> OutOfFuel" and "n \<le> m"
    and "run_value (listBlocks n c blockId (fetchImage fmt) s) = Some outs"
  shows "image_requests m c blockId = image_requests n c blockId"
proof -
  from assms(3) obtain s' where ran: "listBlocks n c blockId (fetchImage fmt) s = Done outs s'"
    by (cases "listBlocks n c blockId (fetchImage fmt) s") auto
  with ran fuel_mono(1) [OF assms(2,1)] have "listBlocks m c blockId (fetchImage fmt) s = Done outs s'"
    by simp
  with resolved_walk(1) [where n = m and c = c and blockId = blockId and fmt = fmt and s = s]
  have "resolved fmt (image_requests m c blockId) s s'" by simp
  moreover from ran
    resolved_walk(1) [where n = n and c = c and blockId = blockId and fmt = fmt and s = s]
  have "resolved fmt (image_requests n c blockId) s s'" by simp
  ultimately show ?thesis by (simp add: resolved_def)
qed

text \<open>
  C2, as the code has it. The \<^verbatim>\<open>imagePaths\<close> of a rendered entry are the paths the instance had
  collected before the call (none on a newly constructed instance), followed by exactly the
  local references of the resolver calls of this materialization that succeeded, in the order
  of the calls; a failed call adds nothing. The calls are made depth-first in listing order,
  for the images nested in a block before the block's own image (\<open>image_requests\<close>), and that
  sequence does not depend on the budget. Where no image block declares children it is the
  document order of the specification (\<open>document_order\<close>: pre-order, a block before the blocks
  nested in it).
\<close>

theorem render_imagePaths:
  assumes "render fuel fmt proc this = Done (Some out) this'"
  shows "imagePaths (metadata out) =
           priv_imagePaths this @ successes fmt (image_requests fuel (client this) (page_id this))
       \<and> asset_calls this' = asset_calls this @ image_requests fuel (client this) (page_id this)
       \<and> (priv_imagePaths this = [] \<longrightarrow>
            imagePaths (metadata out) = successes fmt (image_requests fuel (client this) (page_id this)))
       \<and> (\<forall>m. fuel \<le> m \<longrightarrow>
            image_requests m (client this) (page_id this) = image_requests fuel (client this) (page_id this))
       \<and> (childless_images (client this) (page_id this) \<longrightarrow>
            image_requests fuel (client this) (page_id this)
              = document_order fuel (client this) (page_id this)
            \<and> imagePaths (metadata out) =
                priv_imagePaths this
                @ successes fmt (document_order fuel (client this) (page_id this)))"
proof -
  from render_resolved(2) [OF assms refl]
  have "resolved fmt (image_requests fuel (client this) (page_id this)) this this'"
    and "imagePaths (metadata out) = priv_imagePaths this'" by simp_all
  then have effects: "imagePaths (metadata out) =
           priv_imagePaths this @ successes fmt (image_requests fuel (client this) (page_id this))"
      "asset_calls this' = asset_calls this @ image_requests fuel (client this) (page_id this)"
    by (simp_all add: resolved_def)
  have budget: "image_requests m (client this) (page_id this) =
      image_requests fuel (client this) (page_id this)" if "fuel \<le> m" for m
  proof -
    let ?run = "listBlocks fuel (client this) (page_id this) (fetchImage fmt)
      (write_log Debug ''Rendering'' this)"
    from assms obtain blocks where "run_value ?run = Some blocks" and "?run \<noteq> OutOfFuel"
      by (auto simp: render_def split: run.splits sum.splits)
    then show ?thesis using image_requests_budget [OF _ that] by blast
  qed
  from effects(1) have fresh: "priv_imagePaths this = [] \<longrightarrow>
      imagePaths (metadata out) = successes fmt (image_requests fuel (client this) (page_id this))"
    by simp
  have ordered: "image_requests fuel (client this) (page_id this)
              = document_order fuel (client this) (page_id this)
            \<and> imagePaths (metadata out) =
                priv_imagePaths this
                @ successes fmt (document_order fuel (client this) (page_id this))"
    if "childless_images (client this) (page_id this)"
    using call_order_is_document_order(1) [OF that listed_ids.root, of fuel] effects(1) by simp
  from effects budget fresh ordered show ?thesis by blast
qed

lemma listed_ids_image: "listed_ids demo_client ''page-image'' = {''page-image''}"
proof -
  have "x = ''page-image''" if "x \<in> listed_ids demo_client ''page-image''" for x
    using that
    by (induction rule: listed_ids.induct) (auto simp: ex_defs split: if_splits)
  then show ?thesis by (auto intro: listed_ids.root)
qed

text \<open>The page with one image, rendered on a new instance.\<close>

theorem render_imagePaths_witness:
  "\<exists>out this'. render (Suc 0) fmt_ok proc_ok image_page_renderer = Done (Some out) this'
     \<and> priv_imagePaths image_page_renderer = []
     \<and> childless_images demo_client ''page-image''
     \<and> imagePaths (metadata out) = [''/_astro/a.png'']
     \<and> asset_calls this' = [ex_image]
     \<and> image_requests 7 demo_client ''page-image'' = [ex_image]
     \<and> document_order (Suc 0) demo_client ''page-image'' = [ex_image]"
proof -
  have fresh: "priv_imagePaths image_page_renderer = []" "asset_calls image_page_renderer = []"
    "client image_page_renderer = demo_client" "page_id image_page_renderer = ''page-image''"
    by (simp_all add: image_page_renderer_def NotionPageRenderer_def)
  have reqs: "image_requests (Suc 0) demo_client ''page-image'' = [ex_image]"
    by (simp add: ex_defs own_request_def)
  have childless: "childless_images demo_client ''page-image''"
    by (simp add: childless_images_def listed_ids_image) (simp add: ex_defs)
  note inst = render_imagePaths [OF first_render]
  have budget: "image_requests 7 demo_client ''page-image'' = [ex_image]"
    using inst [THEN conjunct2, THEN conjunct2, THEN conjunct2, THEN conjunct1, rule_format, of 7]
    by (simp only: fresh reqs)
  have order: "document_order (Suc 0) demo_client ''page-image'' = [ex_image]"
    using inst [THEN conjunct2, THEN conjunct2, THEN conjunct2, THEN conjunct2, rule_format,
        THEN conjunct1] childless
    by (simp only: fresh reqs)
  show ?thesis
    using first_render budget order childless by (simp add: fresh)
qed

text \<open>
  C2 as stated fails twice. On the second call of \<^verbatim>\<open>render\<close> on one instance, that call makes
  one resolver call, which succeeds with one path, and its \<^verbatim>\<open>imagePaths\<close> has two entries.
  And on a new instance, for an image block that declares children and has an image nested in
  it, both resolved, \<^verbatim>\<open>imagePaths\<close> has the nested image first, where document order has the
  block's own image first.
\<close>

theorem render_paths_repeat_and_reorder:
  "run_value (render (Suc 0) fmt_ok proc_ok once_rendered) =
     Some (Some \<lparr>html = ''<p>intro</p>'',
                  metadata = \<lparr>headings = [], imagePaths = [''/_astro/a.png'', ''/_astro/a.png'']\<rparr>\<rparr>)
   \<and> map_option asset_calls (run_state (render (Suc 0) fmt_ok proc_ok once_rendered)) =
       Some (asset_calls once_rendered @ [ex_image])
   \<and> successes fmt_ok [ex_image] = [''/_astro/a.png'']
   \<and> run_value (render (Suc (Suc 0)) fmt_by_url proc_ok
        (NotionPageRenderer nested_client ''page-nested'' (Inr ''Album''))) =
       Some (Some \<lparr>html = ''<p>intro</p>'',
                    metadata = \<lparr>headings = [],
                                imagePaths = [''/_astro/inner.png'', ''/_astro/outer.png'']\<rparr>\<rparr>)
   \<and> document_order (Suc (Suc 0)) nested_client ''page-nested'' = [outer_image, inner_image]
   \<and> successes fmt_by_url (document_order (Suc (Suc 0)) nested_client ''page-nested'') =
       [''/_astro/outer.png'', ''/_astro/inner.png'']"
  by (simp add: once_rendered_eq image_page_renderer_def run_defs ex_defs own_request_def
      nested_client_def outer_image_block_def inner_image_block_def outer_image_def
      inner_image_def fmt_by_url_def)

text \<open>
  C3. \<^verbatim>\<open>#imagePaths\<close> only grows and \<^verbatim>\<open>render\<close> never clears it: of two calls of
  \<^verbatim>\<open>render\<close> on one instance that both return an entry, whatever calls came between them,
  the paths of the first entry are a prefix of the paths of the second; the second entry's
  paths are what the instance held before that call, followed by the successes of its own
  materialization.
\<close>

theorem imagePaths_accumulate:
  assumes "render fuel fmt proc this = Done (Some out1) this1"
    and "lifetime fmt' this1 mid"
    and "render fuel' fmt' proc' mid = Done (Some out2) this2"
  shows "prefix (priv_imagePaths this) (priv_imagePaths this1)
       \<and> prefix (priv_imagePaths this1) (priv_imagePaths mid)
       \<and> prefix (imagePaths (metadata out1)) (imagePaths (metadata out2))
       \<and> imagePaths (metadata out2) =
           priv_imagePaths mid
           @ successes fmt' (image_requests fuel' (client this) (page_id this))"
  using render_resolved(2) [OF assms(1) refl] render_resolved(2) [OF assms(3) refl]
    lifetime_frame [OF assms(2)]
  by (auto simp: resolved_def)

text \<open>The page with one image, rendered twice on one instance.\<close>

theorem imagePaths_accumulate_witness:
  "\<exists>out1 this1 out2 this2.
     render (Suc 0) fmt_ok proc_ok image_page_renderer = Done (Some out1) this1
     \<and> lifetime fmt_ok this1 this1
     \<and> render (Suc 0) fmt_ok proc_ok this1 = Done (Some out2) this2
     \<and> imagePaths (metadata out1) = [''/_astro/a.png'']
     \<and> imagePaths (metadata out2) = [''/_astro/a.png'', ''/_astro/a.png'']
     \<and> prefix (imagePaths (metadata out1)) (imagePaths (metadata out2))"
proof -
  obtain out2 this2 where second: "render (Suc 0) fmt_ok proc_ok once_rendered = Done (Some out2) this2"
    and paths: "imagePaths (metadata out2) = [''/_astro/a.png'', ''/_astro/a.png'']"
    by (simp add: once_rendered_eq image_page_renderer_def run_defs ex_defs)
  from first_render have first: "render (Suc 0) fmt_ok proc_ok image_page_renderer =
      Done (Some \<lparr>html = ''<p>intro</p>'', metadata = \<lparr>headings = [], imagePaths = [''/_astro/a.png'']\<rparr>\<rparr>)
        once_rendered"
    by (simp add: once_rendered_eq)
  have between: "lifetime fmt_ok once_rendered once_rendered"
    by (rule lifetime.constructed)
  have pre: "prefix (imagePaths (metadata \<lparr>html = ''<p>intro</p>'',
      metadata = \<lparr>headings = [], imagePaths = [''/_astro/a.png'']\<rparr>\<rparr>)) (imagePaths (metadata out2))"
    using imagePaths_accumulate [OF first between second] by (elim conjE)
  show ?thesis
    apply (rule exI [of _ "\<lparr>html = ''<p>intro</p>'',
      metadata = \<lparr>headings = [], imagePaths = [''/_astro/a.png'']\<rparr>\<rparr>"])
    apply (rule exI [of _ once_rendered])
    apply (rule exI [of _ out2])
    apply (rule exI [of _ this2])
    using first between second paths pre by simp
qed

lemma render_media_free:
  assumes "media_free (client this) (page_id this)"
    and "render fuel fmt proc this = Done res this'"
  shows "asset_calls this' = asset_calls this \<and> priv_imagePaths this' = priv_imagePaths this
       \<and> client this' = client this \<and> page_id this' = page_id this
       \<and> (\<forall>out. res = Some out \<longrightarrow> imagePaths (metadata out) = priv_imagePaths this)"
  using assms(2)
    image_free_walk(1) [OF media_free_image_free [OF assms(1)] listed_ids.root, of fuel "fetchImage fmt"
      "write_log Debug ''Rendering'' this"]
  by (auto simp: render_def write_log_def split: run.splits sum.splits)

lemma lifetime_media_free:
  "lifetime fmt r0 this \<Longrightarrow> media_free (client r0) (page_id r0)
   \<Longrightarrow> client this = client r0 \<and> page_id this = page_id r0
       \<and> asset_calls this = asset_calls r0 \<and> priv_imagePaths this = priv_imagePaths r0"
proof (induction rule: lifetime.induct)
  case constructed
  then show ?case by simp
next
  case (rendered this fuel proc res this')
  then show ?case using render_media_free [of this fuel fmt proc res this'] by simp
qed

lemma constructed_fields:
  "client (NotionPageRenderer c pid title) = c"
  "page_id (NotionPageRenderer c pid title) = pid"
  "priv_imagePaths (NotionPageRenderer c pid title) = []"
  "asset_calls (NotionPageRenderer c pid title) = []"
  by (simp_all add: NotionPageRenderer_def write_log_def Let_def split: sum.splits)

text \<open>
  C9. On a page whose block tree has no image and no video block, \<^verbatim>\<open>render\<close> never calls the
  resolver, whether it returns an entry or \<^verbatim>\<open>undefined\<close>, and the \<^verbatim>\<open>imagePaths\<close> of a
  returned entry is empty. This holds for every call on an instance constructed for that page.
\<close>

theorem media_free_render:
  assumes "media_free c pid"
    and "lifetime fmt (NotionPageRenderer c pid title) this"
    and "render fuel fmt proc this = Done res this'"
  shows "asset_calls this' = asset_calls this \<and> asset_calls this' = []
       \<and> (\<forall>out. res = Some out \<longrightarrow> imagePaths (metadata out) = [])"
proof -
  from lifetime_media_free [OF assms(2)] assms(1)
  have now: "client this = c" "page_id this = pid" "asset_calls this = []" "priv_imagePaths this = []"
    by (simp_all add: constructed_fields)
  with render_media_free [OF _ assms(3)] assms(1) show ?thesis by simp
qed

lemma listed_ids_text: "listed_ids demo_client ''page-text'' = {''page-text''}"
proof -
  have "x = ''page-text''" if "x \<in> listed_ids demo_client ''page-text''" for x
    using that
    by (induction rule: listed_ids.induct) (auto simp: ex_defs split: if_splits)
  then show ?thesis by (auto intro: listed_ids.root)
qed

text \<open>The page with one paragraph.\<close>

theorem media_free_render_witness:
  "media_free demo_client ''page-text''
   \<and> lifetime fmt_ok (NotionPageRenderer demo_client ''page-text'' (Inr ''Notes''))
        (NotionPageRenderer demo_client ''page-text'' (Inr ''Notes''))
   \<and> (\<exists>out this'. render (Suc 0) fmt_ok proc_ok (NotionPageRenderer demo_client ''page-text'' (Inr ''Notes''))
                      = Done (Some out) this'
         \<and> asset_calls this' = [] \<and> imagePaths (metadata out) = [])"
proof -
  have free: "media_free demo_client ''page-text''"
    by (simp add: media_free_def listed_ids_text) (simp add: ex_defs)
  have life: "lifetime fmt_ok (NotionPageRenderer demo_client ''page-text'' (Inr ''Notes''))
        (NotionPageRenderer demo_client ''page-text'' (Inr ''Notes''))"
    by (rule lifetime.constructed)
  obtain out this' where ran: "render (Suc 0) fmt_ok proc_ok
      (NotionPageRenderer demo_client ''page-text'' (Inr ''Notes'')) = Done (Some out) this'"
    by (simp add: run_defs ex_defs)
  from media_free_render [OF free life ran] have "asset_calls this' = []"
    and "imagePaths (metadata out) = []" by blast+
  with free life ran show ?thesis by blast
qed


lemma always_fails_Inl: "always_fails fmt \<Longrightarrow> \<exists>e. fileToImageAsset fmt f = Inl e"
  by (simp add: always_fails_def)

lemma successes_always_fails: "always_fails fmt \<Longrightarrow> successes fmt reqs = []"
proof (induction reqs)
  case (Cons f reqs)
  with always_fails_Inl [of fmt f] show ?case by auto
qed simp

lemma fetchImage_always_fails:
  "always_fails fmt \<Longrightarrow> fst (fetchImage fmt f s) = fileToUrl fmt f"
  using always_fails_Inl [of fmt f] by (auto simp: fetchImage_def Let_def)

lemma lifetime_always_fails:
  assumes "always_fails fmt" and "lifetime fmt (NotionPageRenderer c pid title) this"
  shows "client this = c" "page_id this = pid" "priv_imagePaths this = []"
  using lifetime_frame [OF assms(2)] successes_always_fails [OF assms(1)]
  by (auto simp: constructed_fields)

text \<open>
  C5. With a resolver that fails on every call, on an instance constructed for the page: an
  image block is yielded with the url that \<^verbatim>\<open>fileToUrl\<close> gives for its file object, and
  \<^verbatim>\<open>#imagePaths\<close> is left as it was; the materialization ends as the one in which every image
  simply takes that url, so it throws only where a listing throws; when that materialization
  returns and the pipeline accepts its blocks, \<^verbatim>\<open>render\<close> returns the entry, with empty
  \<^verbatim>\<open>imagePaths\<close>; and every entry that \<^verbatim>\<open>render\<close> returns has empty \<^verbatim>\<open>imagePaths\<close>.
\<close>

theorem failing_resolver_falls_back:
  assumes "always_fails fmt"
    and "lifetime fmt (NotionPageRenderer c pid title) this"
  shows "(payload blk = Image img \<longrightarrow>
            fst (yield_block (fetchImage fmt) blk kids s) =
              OutBlock (block_id blk) (has_children blk)
                (OutImage \<lparr>mtype = ftype img, murl = fileToUrl fmt img, mcaption = fcaption img\<rparr>)
            \<and> priv_imagePaths (snd (yield_block (fetchImage fmt) blk kids s)) = priv_imagePaths s)
       \<and> outcome_of (listBlocks fuel c pid (fetchImage fmt) s) =
            listBlocks fuel c pid (plain_fetch (fileToUrl fmt)) ()
       \<and> (listBlocks fuel c pid (plain_fetch (fileToUrl fmt)) () = Done blocks () \<and> proc blocks = Inr r
            \<longrightarrow> (\<exists>this'. render fuel fmt proc this =
                   Done (Some \<lparr>html = vFile r,
                                metadata = \<lparr>headings = proc_headings r, imagePaths = []\<rparr>\<rparr>) this'))
       \<and> (render fuel fmt proc this = Done (Some out) this' \<longrightarrow> imagePaths (metadata out) = [])"
proof -
  note now = lifetime_always_fails [OF assms]
  have url: "fst (fetchImage fmt f s) = fileToUrl fmt f" for f s
    by (rule fetchImage_always_fails [OF assms(1)])
  have block: "fst (yield_block (fetchImage fmt) blk kids s) =
              OutBlock (block_id blk) (has_children blk)
                (OutImage \<lparr>mtype = ftype img, murl = fileToUrl fmt img, mcaption = fcaption img\<rparr>)
            \<and> priv_imagePaths (snd (yield_block (fetchImage fmt) blk kids s)) = priv_imagePaths s"
    if "payload blk = Image img"
    using that url [of img s] resolved_fetchImage [of fmt img s]
      successes_always_fails [OF assms(1), of "[img]"]
    by (simp add: yield_block_def case_prod_beta resolved_def del: successes.simps)
  have same: "outcome_of (listBlocks fuel c pid (fetchImage fmt) s) =
            listBlocks fuel c pid (plain_fetch (fileToUrl fmt)) ()" for s
    by (rule outcome_plain(1)) (rule url)
  have succeeds: "\<exists>this'. render fuel fmt proc this =
                   Done (Some \<lparr>html = vFile r,
                                metadata = \<lparr>headings = proc_headings r, imagePaths = []\<rparr>\<rparr>) this'"
    if plain: "listBlocks fuel c pid (plain_fetch (fileToUrl fmt)) () = Done blocks ()"
      and ok: "proc blocks = Inr r"
  proof -
    let ?start = "write_log Debug ''Rendering'' this"
    from same [of ?start] plain obtain this1 where
      ran: "listBlocks fuel c pid (fetchImage fmt) ?start = Done blocks this1"
      by (cases "listBlocks fuel c pid (fetchImage fmt) ?start") auto
    from resolved_walk(1) [where n = fuel and c = c and blockId = pid and fmt = fmt and s = ?start]
      ran now successes_always_fails [OF assms(1)]
    have "priv_imagePaths this1 = []" by (simp add: resolved_def write_log_def)
    with ran ok now show ?thesis by (simp add: render_def)
  qed
  have empty: "imagePaths (metadata out) = []" if "render fuel fmt proc this = Done (Some out) this'"
    using render_resolved(2) [OF that refl] now successes_always_fails [OF assms(1)]
    by (simp add: resolved_def)
  from block same succeeds empty show ?thesis by blast
qed


text \<open>The page with one image, and the resolver that refuses every file.\<close>

theorem failing_resolver_falls_back_witness:
  "always_fails fmt_failing
   \<and> lifetime fmt_failing image_page_renderer image_page_renderer
   \<and> listBlocks (Suc 0) demo_client ''page-image'' (plain_fetch (fileToUrl fmt_failing)) () =
       Done [OutBlock ''b1'' False
               (OutImage \<lparr>mtype = ''external'', murl = ''https://img.example/a.png'', mcaption = [''A'']\<rparr>)] ()
   \<and> (\<exists>this'. render (Suc 0) fmt_failing proc_ok image_page_renderer =
          Done (Some \<lparr>html = ''<p>intro</p>'', metadata = \<lparr>headings = [], imagePaths = []\<rparr>\<rparr>) this')"
proof -
  have fails: "always_fails fmt_failing"
    by (simp add: always_fails_def fmt_failing_def)
  have life: "lifetime fmt_failing (NotionPageRenderer demo_client ''page-image'' (Inr ''Home''))
      image_page_renderer"
    unfolding image_page_renderer_def by (rule lifetime.constructed)
  have plain: "listBlocks (Suc 0) demo_client ''page-image'' (plain_fetch (fileToUrl fmt_failing)) () =
       Done [OutBlock ''b1'' False
               (OutImage \<lparr>mtype = ''external'', murl = ''https://img.example/a.png'', mcaption = [''A'']\<rparr>)] ()"
    by (simp add: ex_defs yield_block_def plain_fetch_def)
  have ok: "proc_ok [OutBlock ''b1'' False
               (OutImage \<lparr>mtype = ''external'', murl = ''https://img.example/a.png'', mcaption = [''A'']\<rparr>)]
      = Inr \<lparr>vFile = ''<p>intro</p>'', proc_headings = []\<rparr>"
    by (simp add: proc_ok_def)
  from failing_resolver_falls_back [OF fails life, where fuel = "Suc 0" and proc = proc_ok
      and r = "\<lparr>vFile = ''<p>intro</p>'', proc_headings = []\<rparr>"
      and blocks = "[OutBlock ''b1'' False
               (OutImage \<lparr>mtype = ''external'', murl = ''https://img.example/a.png'', mcaption = [''A'']\<rparr>)]"]
    plain ok
  have "\<exists>this'. render (Suc 0) fmt_failing proc_ok image_page_renderer =
          Done (Some \<lparr>html = ''<p>intro</p>'', metadata = \<lparr>headings = [], imagePaths = []\<rparr>\<rparr>) this'"
    by simp
  with fails plain show ?thesis by (simp add: lifetime.constructed)
qed

text \<open>
  C7. A video block is yielded without a call of \<^verbatim>\<open>fetchImage\<close>: the instance is left as it
  was (no resolver call, no path), and the payload is the tag, the url of the source
  (\<^verbatim>\<open>external.url\<close> under the tag \<^verbatim>\<open>external\<close>, \<^verbatim>\<open>file.url\<close> otherwise) and the caption.
  In the loop the state after the block's children is handed on to the next entry unchanged.
  An image block is yielded with the url \<^verbatim>\<open>fetchImage\<close> returns, after one resolver call for
  its file object. So the materialization of a tree that has videos but no image block ends
  with the instance as it was: no resolver call was made.
\<close>

theorem video_referenced_image_resolved:
  "(payload blk = Video vid \<longrightarrow>
      yield_block (fetchImage fmt) blk kids this =
        (OutBlock (block_id blk) (has_children blk)
           (OutVideo \<lparr>mtype = (case vid of External u cap \<Rightarrow> ''external'' | File u e cap \<Rightarrow> ''file''),
                      murl = (case vid of External u cap \<Rightarrow> u | File u e cap \<Rightarrow> u),
                      mcaption = fcaption vid\<rparr>), this))
   \<and> (payload blk = Video vid \<longrightarrow>
        for_await fuel c (FullBlock blk # rest) failure (fetchImage fmt) this =
          (case awaited_children fuel c blk (fetchImage fmt) this of
             OutOfFuel \<Rightarrow> OutOfFuel
           | Threw e this1 \<Rightarrow> Threw e this1
           | Done children this1 \<Rightarrow>
               (case for_await fuel c rest failure (fetchImage fmt) this1 of
                  OutOfFuel \<Rightarrow> OutOfFuel
                | Threw e this2 \<Rightarrow> Threw e this2
                | Done outs this2 \<Rightarrow>
                    Done (OutBlock (block_id blk) (has_children blk)
                            (OutVideo \<lparr>mtype = ftype vid,
                                       murl = (case vid of External u cap \<Rightarrow> u | File u e cap \<Rightarrow> u),
                                       mcaption = fcaption vid\<rparr>) # outs) this2)))
   \<and> (payload blk = Image img \<longrightarrow>
        yield_block (fetchImage fmt) blk kids this =
          (OutBlock (block_id blk) (has_children blk)
             (OutImage \<lparr>mtype = ftype img,
                        murl = (case fileToImageAsset fmt img of
                                  Inr asset \<Rightarrow> src asset
                                | Inl e \<Rightarrow> fileToUrl fmt img),
                        mcaption = fcaption img\<rparr>), snd (fetchImage fmt img this))
        \<and> asset_calls (snd (fetchImage fmt img this)) = asset_calls this @ [img])
   \<and> (image_free c root \<and> run_state (listBlocks fuel c root (fetchImage fmt) this) = Some this'
      \<longrightarrow> this' = this)"
proof -
  have video: "yield_block fetch blk kids s =
        (OutBlock (block_id blk) (has_children blk)
           (OutVideo \<lparr>mtype = (case vid of External u cap \<Rightarrow> ''external'' | File u e cap \<Rightarrow> ''file''),
                      murl = (case vid of External u cap \<Rightarrow> u | File u e cap \<Rightarrow> u),
                      mcaption = fcaption vid\<rparr>), s)"
    if "payload blk = Video vid" for fetch :: "file_object \<Rightarrow> renderer \<Rightarrow> string \<times> renderer" and kids s
    using that by (cases vid) (simp_all add: yield_block_def)
  have tag: "(case vid of External u cap \<Rightarrow> ''external'' | File u e cap \<Rightarrow> ''file'') = ftype vid"
    by (cases vid) simp_all
  have loop: "for_await fuel c (FullBlock blk # rest) failure (fetchImage fmt) this =
          (case awaited_children fuel c blk (fetchImage fmt) this of
             OutOfFuel \<Rightarrow> OutOfFuel
           | Threw e this1 \<Rightarrow> Threw e this1
           | Done children this1 \<Rightarrow>
               (case for_await fuel c rest failure (fetchImage fmt) this1 of
                  OutOfFuel \<Rightarrow> OutOfFuel
                | Threw e this2 \<Rightarrow> Threw e this2
                | Done outs this2 \<Rightarrow>
                    Done (OutBlock (block_id blk) (has_children blk)
                            (OutVideo \<lparr>mtype = ftype vid,
                                       murl = (case vid of External u cap \<Rightarrow> u | File u e cap \<Rightarrow> u),
                                       mcaption = fcaption vid\<rparr>) # outs) this2))"
    if "payload blk = Video vid"
    unfolding for_await_FullBlock by (simp add: video [OF that] tag split: run.splits)
  have img: "yield_block (fetchImage fmt) blk kids this =
          (OutBlock (block_id blk) (has_children blk)
             (OutImage \<lparr>mtype = ftype img,
                        murl = (case fileToImageAsset fmt img of
                                  Inr asset \<Rightarrow> src asset
                                | Inl e \<Rightarrow> fileToUrl fmt img),
                        mcaption = fcaption img\<rparr>), snd (fetchImage fmt img this))
        \<and> asset_calls (snd (fetchImage fmt img this)) = asset_calls this @ [img]"
    if "payload blk = Image img"
    using that
    by (simp add: yield_block_def case_prod_beta fetchImage_def write_log_def Let_def split: sum.splits)
  have whole: "this' = this"
    if "image_free c root" "run_state (listBlocks fuel c root (fetchImage fmt) this) = Some this'"
    using image_free_walk(1) [OF that(1) listed_ids.root, of fuel "fetchImage fmt" this] that(2)
    by simp
  from video loop img whole show ?thesis by blast
qed

text \<open>The page with one video.\<close>

lemma listed_ids_video: "listed_ids demo_client ''page-video'' = {''page-video''}"
proof -
  have "x = ''page-video''" if "x \<in> listed_ids demo_client ''page-video''" for x
    using that
    by (induction rule: listed_ids.induct) (auto simp: ex_defs split: if_splits)
  then show ?thesis by (auto intro: listed_ids.root)
qed

theorem video_referenced_image_resolved_witness:
  "payload video_block = Video ex_video
   \<and> image_free demo_client ''page-video''
   \<and> listBlocks (Suc 0) demo_client ''page-video'' (fetchImage fmt_ok)
       (NotionPageRenderer demo_client ''page-video'' (Inr ''Clips'')) =
       Done [OutBlock ''b2'' False
               (OutVideo \<lparr>mtype = ''file'', murl = ''https://s3.example/v.mp4'', mcaption = [''clip'']\<rparr>)]
         (NotionPageRenderer demo_client ''page-video'' (Inr ''Clips''))"
proof -
  let ?clips = "NotionPageRenderer demo_client ''page-video'' (Inr ''Clips'')"
  have pay: "payload video_block = Video ex_video"
    by (simp add: video_block_def)
  have free: "image_free demo_client ''page-video''"
    by (simp add: image_free_def listed_ids_video) (simp add: ex_defs)
  note inst = video_referenced_image_resolved [where blk = video_block and vid = ex_video
      and fmt = fmt_ok and fuel = 0 and c = demo_client and rest = "[]" and failure = None
      and this = ?clips]
  have "listBlocks (Suc 0) demo_client ''page-video'' (fetchImage fmt_ok) ?clips =
      for_await 0 demo_client [FullBlock video_block] None (fetchImage fmt_ok) ?clips"
    by (simp add: demo_client_def)
  also note inst [THEN conjunct2, THEN conjunct1, rule_format, OF pay]
  finally have "listBlocks (Suc 0) demo_client ''page-video'' (fetchImage fmt_ok) ?clips =
       Done [OutBlock ''b2'' False
               (OutVideo \<lparr>mtype = ''file'', murl = ''https://s3.example/v.mp4'', mcaption = [''clip'']\<rparr>)]
         ?clips"
    by (simp add: awaited_children_def video_block_def ex_video_def)
  with pay free show ?thesis by simp
qed

lemma render_budget:
  assumes "listBlocks n (client this) (page_id this) (fetchImage fmt)
             (write_log Debug ''Rendering'' this) \<noteq> OutOfFuel"
    and "n \<le> m"
  shows "render m fmt proc this = render n fmt proc this"
  using fuel_mono(1) [OF assms(2,1)] by (simp add: render_def)

lemma render_returns:
  assumes "finite_depth (client this) (page_id this)"
  shows "\<exists>n res this'. \<forall>m. n \<le> m \<longrightarrow> render m fmt proc this = Done res this'"
proof -
  from enough_fuel [OF assms, of "fetchImage fmt"] obtain n where
    n: "listBlocks n (client this) (page_id this) (fetchImage fmt)
          (write_log Debug ''Rendering'' this) \<noteq> OutOfFuel"
    by blast
  then have "render n fmt proc this \<noteq> OutOfFuel"
    by (simp add: render_def split: run.splits sum.splits)
  then obtain res this' where "render n fmt proc this = Done res this'"
    using render_not_Threw [of n fmt proc this]
    by (cases "render n fmt proc this") auto
  with render_budget [OF n] show ?thesis by metis
qed

text \<open>
  C8. A materialization that throws, and a pipeline that throws on the blocks, both make
  \<^verbatim>\<open>render\<close> log \<^verbatim>\<open>Failed to render: <message>\<close> at error level under the page's logger label
  and return \<^verbatim>\<open>undefined\<close>; when both succeed \<^verbatim>\<open>render\<close> returns the entry made of the html,
  the headings and the instance's paths. \<^verbatim>\<open>render\<close> never throws, and over a remote tree of
  finite depth it returns, with the same result for every budget that suffices.
\<close>

theorem render_catches:
  "(listBlocks fuel (client this) (page_id this) (fetchImage fmt) (write_log Debug ''Rendering'' this)
      = Threw err mid
    \<longrightarrow> render fuel fmt proc this =
          Done None (mid\<lparr>logged := logged mid
             @ [(logger_label this, ErrorLevel, ''Failed to render: '' @ getErrorMessage err)]\<rparr>))
   \<and> (listBlocks fuel (client this) (page_id this) (fetchImage fmt) (write_log Debug ''Rendering'' this)
        = Done blocks mid \<and> proc blocks = Inl err
      \<longrightarrow> render fuel fmt proc this =
            Done None (mid\<lparr>logged := logged mid
               @ [(logger_label this, ErrorLevel, ''Failed to render: '' @ getErrorMessage err)]\<rparr>))
   \<and> (listBlocks fuel (client this) (page_id this) (fetchImage fmt) (write_log Debug ''Rendering'' this)
        = Done blocks mid \<and> proc blocks = Inr r
      \<longrightarrow> render fuel fmt proc this =
            Done (Some \<lparr>html = vFile r,
                         metadata = \<lparr>headings = proc_headings r, imagePaths = priv_imagePaths mid\<rparr>\<rparr>)
                 (mid\<lparr>logged := logged mid @ [(logger_label this, Debug, ''Rendered'')]\<rparr>))
   \<and> render fuel fmt proc this \<noteq> Threw err mid
   \<and> (finite_depth (client this) (page_id this)
      \<longrightarrow> (\<exists>n res this'. \<forall>m. n \<le> m \<longrightarrow> render m fmt proc this = Done res this'))"
proof -
  let ?run = "listBlocks fuel (client this) (page_id this) (fetchImage fmt)
    (write_log Debug ''Rendering'' this)"
  have label: "logger_label s' = logger_label this"
    if "run_state ?run = Some s'" for s'
    using that resolved_walk(1) [where n = fuel and c = "client this" and blockId = "page_id this"
        and fmt = fmt and s = "write_log Debug ''Rendering'' this"]
    by (cases ?run) (auto simp: resolved_def write_log_def)
  have thrown: "render fuel fmt proc this =
          Done None (mid\<lparr>logged := logged mid
             @ [(logger_label this, ErrorLevel, ''Failed to render: '' @ getErrorMessage err)]\<rparr>)"
    if "?run = Threw err mid"
    using that label [of mid] by (simp add: render_def write_log_def)
  have stage: "render fuel fmt proc this =
            Done None (mid\<lparr>logged := logged mid
               @ [(logger_label this, ErrorLevel, ''Failed to render: '' @ getErrorMessage err)]\<rparr>)"
    if "?run = Done blocks mid" "proc blocks = Inl err"
    using that label [of mid] by (simp add: render_def write_log_def)
  have fine: "render fuel fmt proc this =
            Done (Some \<lparr>html = vFile r,
                         metadata = \<lparr>headings = proc_headings r, imagePaths = priv_imagePaths mid\<rparr>\<rparr>)
                 (mid\<lparr>logged := logged mid @ [(logger_label this, Debug, ''Rendered'')]\<rparr>)"
    if "?run = Done blocks mid" "proc blocks = Inr r"
    using that label [of mid] by (simp add: render_def write_log_def)
  from thrown stage fine render_not_Threw [of fuel fmt proc this err mid]
    render_returns [of this fmt proc]
  show ?thesis by blast
qed


text \<open>A page whose listing fails after its first block, and a pipeline stage that throws a string.\<close>

theorem render_catches_witness:
  "finite_depth demo_client ''page-broken''
   \<and> (\<exists>this'. render (Suc 0) fmt_ok proc_ok (NotionPageRenderer demo_client ''page-broken'' (Inl ''Required''))
                  = Done None this'
          \<and> logged this' =
              [(''page page-broken (Name unknown)'', Warn, ''Failed to parse property Name as title: Required''),
               (''page page-broken (Name unknown)'', Debug, ''Rendering''),
               (''page page-broken (Name unknown)'', ErrorLevel, ''Failed to render: rate limited'')])
   \<and> (\<exists>this'. render (Suc 0) fmt_ok proc_failing (NotionPageRenderer demo_client ''page-text'' (Inr ''Notes''))
                  = Done None this'
          \<and> logged this' =
              [(''page page-text (Name Notes)'', Debug, ''Rendering''),
               (''page page-text (Name Notes)'', ErrorLevel, ''Failed to render: stage failed'')])
   \<and> (\<exists>n res this'. \<forall>m. n \<le> m \<longrightarrow>
          render m fmt_ok proc_ok (NotionPageRenderer demo_client ''page-broken'' (Inl ''Required''))
            = Done res this')"
proof -
  let ?broken = "NotionPageRenderer demo_client ''page-broken'' (Inl ''Required'')"
  let ?notes = "NotionPageRenderer demo_client ''page-text'' (Inr ''Notes'')"
  have depth: "finite_depth demo_client ''page-broken''"
    by (rule finite_depth.listing) (auto simp: ex_defs)
  have thrown: "listBlocks (Suc 0) (client ?broken) (page_id ?broken) (fetchImage fmt_ok)
      (write_log Debug ''Rendering'' ?broken) = Threw (Error ''rate limited'') (write_log Debug ''Rendering'' ?broken)"
    by (simp add: run_defs ex_defs)
  have listed: "listBlocks (Suc 0) (client ?notes) (page_id ?notes) (fetchImage fmt_ok)
      (write_log Debug ''Rendering'' ?notes) =
        Done [OutBlock ''b3'' False (OutOther ''paragraph'' ''intro'' None)] (write_log Debug ''Rendering'' ?notes)"
    by (simp add: run_defs ex_defs)
  have stage: "proc_failing [OutBlock ''b3'' False (OutOther ''paragraph'' ''intro'' None)]
      = Inl (ThrownString ''stage failed'')"
    by (simp add: proc_failing_def)
  note broken = render_catches [where this = ?broken and fuel = "Suc 0" and fmt = fmt_ok
      and proc = proc_ok and err = "Error ''rate limited''"
      and mid = "write_log Debug ''Rendering'' ?broken"]
  note paged = render_catches [where this = ?notes and fuel = "Suc 0" and fmt = fmt_ok
      and proc = proc_failing and err = "ThrownString ''stage failed''"
      and blocks = "[OutBlock ''b3'' False (OutOther ''paragraph'' ''intro'' None)]"
      and mid = "write_log Debug ''Rendering'' ?notes"]
  from broken thrown have first: "\<exists>this'. render (Suc 0) fmt_ok proc_ok ?broken = Done None this'
          \<and> logged this' =
              [(''page page-broken (Name unknown)'', Warn, ''Failed to parse property Name as title: Required''),
               (''page page-broken (Name unknown)'', Debug, ''Rendering''),
               (''page page-broken (Name unknown)'', ErrorLevel, ''Failed to render: rate limited'')]"
    by (simp add: NotionPageRenderer_def write_log_def)
  from paged listed stage have second: "\<exists>this'. render (Suc 0) fmt_ok proc_failing ?notes = Done None this'
          \<and> logged this' =
              [(''page page-text (Name Notes)'', Debug, ''Rendering''),
               (''page page-text (Name Notes)'', ErrorLevel, ''Failed to render: stage failed'')]"
    by (simp add: NotionPageRenderer_def write_log_def)
  from broken depth have third: "\<exists>n res this'. \<forall>m. n \<le> m \<longrightarrow>
          render m fmt_ok proc_ok ?broken = Done res this'"
    by (simp add: constructed_fields)
  from depth first second third show ?thesis by blast
qed

lemma for_await_placeholders:
  "\<forall>k \<in> set kids. \<exists>i. k = PartialBlock i \<Longrightarrow> for_await n c kids None fetch s = Done [] s"
  by (induction kids) auto

text \<open>
  C10, as the code has it. A block of a kind other than image and video that declares children,
  all of whose listed children are partial, is yielded with the empty list as its
  \<^verbatim>\<open>children\<close>: the partial entries add nothing. An image or video block is yielded with the
  rewritten payload, which has no \<^verbatim>\<open>children\<close> at all.
\<close>

theorem placeholder_children_give_empty_list:
  "(payload blk = Other t content \<and> has_children blk \<and> c (block_id blk) = (kids, None)
      \<and> (\<forall>k \<in> set kids. \<exists>i. k = PartialBlock i)
    \<longrightarrow> for_await (Suc fuel) c (FullBlock blk # rest) failure fetch s =
          (case for_await (Suc fuel) c rest failure fetch s of
             OutOfFuel \<Rightarrow> OutOfFuel
           | Threw e s' \<Rightarrow> Threw e s'
           | Done outs s' \<Rightarrow>
               Done (OutBlock (block_id blk) True (OutOther t content (Some [])) # outs) s'))
   \<and> out_children (OutBlock (block_id blk) True (OutOther t content (Some []))) = Some []
   \<and> (is_media (payload blk) \<longrightarrow> out_children (fst (yield_block fetch blk children s)) = None)"
proof -
  have plain: "for_await (Suc fuel) c (FullBlock blk # rest) failure fetch s =
          (case for_await (Suc fuel) c rest failure fetch s of
             OutOfFuel \<Rightarrow> OutOfFuel
           | Threw e s' \<Rightarrow> Threw e s'
           | Done outs s' \<Rightarrow>
               Done (OutBlock (block_id blk) True (OutOther t content (Some [])) # outs) s')"
    if "payload blk = Other t content" "has_children blk" "c (block_id blk) = (kids, None)"
      "\<forall>k \<in> set kids. \<exists>i. k = PartialBlock i"
  proof -
    have "awaited_children (Suc fuel) c blk fetch s = Done (Some []) s"
      using that for_await_placeholders [OF that(4), of fuel c fetch s]
      by (simp add: awaited_children_def)
    moreover have "yield_block fetch blk (Some []) s =
        (OutBlock (block_id blk) True (OutOther t content (Some [])), s)"
      using that(1,2) by (simp add: yield_block_def)
    ultimately show ?thesis
      unfolding for_await_FullBlock by (simp split: run.splits)
  qed
  have media: "out_children (fst (yield_block fetch blk children s)) = None"
    if "is_media (payload blk)"
    using that by (cases "payload blk") (simp_all add: yield_block_def case_prod_beta)
  from plain media show ?thesis by simp
qed

text \<open>The page with a toggle whose two children are partial.\<close>

theorem placeholder_children_give_empty_list_witness:
  "payload toggle_block = Other ''toggle'' ''More'' \<and> has_children toggle_block
   \<and> demo_client (block_id toggle_block) = ([PartialBlock ''p1'', PartialBlock ''p2''], None)
   \<and> listBlocks (Suc (Suc 0)) demo_client ''page-toggle'' (fetchImage fmt_ok) image_page_renderer =
       Done [OutBlock ''t1'' True (OutOther ''toggle'' ''More'' (Some []))] image_page_renderer"
proof -
  have hyps: "payload toggle_block = Other ''toggle'' ''More'' \<and> has_children toggle_block
      \<and> demo_client (block_id toggle_block) = ([PartialBlock ''p1'', PartialBlock ''p2''], None)
      \<and> (\<forall>k \<in> set [PartialBlock ''p1'', PartialBlock ''p2'']. \<exists>i. k = PartialBlock i)"
    by (simp add: toggle_block_def demo_client_def)
  from placeholder_children_give_empty_list [where blk = toggle_block and t = "''toggle''"
      and content = "''More''" and c = demo_client
      and kids = "[PartialBlock ''p1'', PartialBlock ''p2'']" and fuel = 0 and rest = "[]"
      and failure = None and fetch = "fetchImage fmt_ok" and s = image_page_renderer,
      THEN conjunct1, rule_format, OF hyps]
  have "for_await (Suc 0) demo_client [FullBlock toggle_block] None (fetchImage fmt_ok) image_page_renderer =
      Done [OutBlock ''t1'' True (OutOther ''toggle'' ''More'' (Some []))] image_page_renderer"
    by (simp add: toggle_block_def)
  moreover have "listBlocks (Suc (Suc 0)) demo_client ''page-toggle'' (fetchImage fmt_ok) image_page_renderer =
      for_await (Suc 0) demo_client [FullBlock toggle_block] None (fetchImage fmt_ok) image_page_renderer"
    by (simp add: demo_client_def)
  ultimately show ?thesis using hyps by simp
qed

text \<open>
  C10 as stated fails for a media block: an image block that declares children, all of them
  partial, is yielded without a \<^verbatim>\<open>children\<close> property, not with an empty one.
\<close>

theorem media_block_loses_children:
  "has_children parent_image_block
   \<and> demo_client (block_id parent_image_block) = ([PartialBlock ''p3''], None)
   \<and> run_value (listBlocks (Suc (Suc 0)) demo_client ''page-parent-image'' (fetchImage fmt_ok)
        (NotionPageRenderer demo_client ''page-parent-image'' (Inr ''Album''))) =
       Some [OutBlock ''i1'' True
               (OutImage \<lparr>mtype = ''external'', murl = ''/_astro/a.png'', mcaption = [''A'']\<rparr>)]
   \<and> out_children (OutBlock ''i1'' True
               (OutImage \<lparr>mtype = ''external'', murl = ''/_astro/a.png'', mcaption = [''A'']\<rparr>)) = None"
  by (simp add: run_defs ex_defs)

section \<open>The outline extractor: properties\<close>

lemma outline_cons: "outline d [item] @ outline d rest = outline d (item # rest)"
  by (cases item) auto

lemma extract_of_tree:
  "listElementToTree (ol_of entries) d = Inr (outline d entries)"
  "flatMap_li (lis_of entries) d = Inr (outline d entries)"
  "li_headings (li_of item) d = Inr (outline d [item])"
  by (induction entries and entries and item arbitrary: d and d and d
      rule: ol_of_lis_of_li_of.induct)
     (simp_all add: outline_cons currentHeading_def)

text \<open>
  C6. On the navigation tree built for an outline, \<open>extractTocHeadings\<close> returns the outline's
  records in pre-order: depth 0 for the items of the top-level list, one more for the items of a
  list nested under an item, the link's text as text, and as slug the link's target without its
  leading \<^verbatim>\<open>#\<close>. For headings of levels 1, 2, 2, 1 the depths are 0, 1, 1, 0. (The code drops the
  first character of the target whatever it is; the targets of the table-of-contents stage
  start with \<^verbatim>\<open>#\<close>.)
\<close>

theorem extractTocHeadings_outline:
  "extractTocHeadings (nav_of entries) = Inr (outline 0 entries)
   \<and> map_sum getErrorMessage (map depth) (extractTocHeadings (nav_of levels_1221)) = Inr [0, 1, 1, 0]"
  by (simp add: extractTocHeadings_def nav_of_def extract_of_tree levels_1221_def currentHeading_def)

theorem extractTocHeadings_outline_witness:
  "extractTocHeadings (nav_of levels_1221) =
     Inr [\<lparr>depth = 0, htext = Some ''One'', slug = ''one''\<rparr>,
          \<lparr>depth = 1, htext = Some ''Two'', slug = ''two''\<rparr>,
          \<lparr>depth = 1, htext = Some ''Three'', slug = ''three''\<rparr>,
          \<lparr>depth = 0, htext = Some ''Four'', slug = ''four''\<rparr>]"
  using extractTocHeadings_outline [of levels_1221] by (simp add: levels_1221_def)

lemma tree_outcome:
  "(case listElementToTree l d of
      Inr hs \<Rightarrow> list_shape l
    | Inl e \<Rightarrow> \<not> list_shape l \<and> (\<exists>m. e = TypeError m))"
  "(case flatMap_li lis d of
      Inr hs \<Rightarrow> items_shape lis
    | Inl e \<Rightarrow> \<not> items_shape lis \<and> (\<exists>m. e = TypeError m))"
  "(case li_headings li d of
      Inr hs \<Rightarrow> item_shape li
    | Inl e \<Rightarrow> \<not> item_shape li \<and> (\<exists>m. e = TypeError m))"
  by (induction l d and lis d and li d rule: listElementToTree_flatMap_li_li_headings.induct)
     (auto split: sum.splits list.splits)

lemma first_child_outcome:
  "(\<exists>hs. listElementToTree l d = Inr hs) = list_shape l"
  "(\<exists>m. listElementToTree l d = Inl (TypeError m)) = (\<not> list_shape l)"
  "listElementToTree l d \<noteq> Inl (Error m)"
  using tree_outcome(1) [of l d] by (auto split: sum.splits)

text \<open>
  C4, as the code has it. The one structure check of \<open>extractTocHeadings\<close> is on the root: it
  throws its own error, \<^verbatim>\<open>Expected nav, got ...\<close>, exactly when the root is not a \<^verbatim>\<open>nav\<close>
  element. Under a \<^verbatim>\<open>nav\<close> root it reads the first child only: it returns the records exactly
  when there is a first child and that child has the shape of a list (\<open>list_shape\<close>), whatever
  follows it; in every other case a read of a missing property throws a \<^verbatim>\<open>TypeError\<close>.
\<close>

theorem extractTocHeadings_outcomes:
  "((\<exists>m. extractTocHeadings toc = Inl (Error m)) \<longleftrightarrow> (\<forall>h cs. toc \<noteq> Element ''nav'' h cs))
   \<and> ((\<exists>hs. extractTocHeadings toc = Inr hs) \<longleftrightarrow>
        (\<exists>h first others. toc = Element ''nav'' h (first # others) \<and> list_shape first))
   \<and> ((\<exists>m. extractTocHeadings toc = Inl (TypeError m)) \<longleftrightarrow>
        (\<exists>h cs. toc = Element ''nav'' h cs
           \<and> \<not> (\<exists>first others. cs = first # others \<and> list_shape first)))"
  by (cases toc) (auto simp: extractTocHeadings_def first_child_outcome split: list.splits)

theorem extractTocHeadings_outcomes_witness:
  "(\<exists>hs. extractTocHeadings (nav_of levels_1221) = Inr hs)
   \<and> (\<exists>m. extractTocHeadings (Element ''div'' None []) = Inl (Error m))
   \<and> (\<exists>m. extractTocHeadings (Element ''nav'' None []) = Inl (TypeError m))"
  using extractTocHeadings_outcomes [of "nav_of levels_1221"]
    extractTocHeadings_outcomes [of "Element ''div'' None []"]
    extractTocHeadings_outcomes [of "Element ''nav'' None []"]
  by (simp add: nav_of_def levels_1221_def)

text \<open>
  C4 as stated fails: a \<^verbatim>\<open>nav\<close> that wraps two top-level lists is not of the expected shape,
  and \<open>extractTocHeadings\<close> returns the records of the first list instead of failing.
\<close>

theorem extractTocHeadings_two_lists_accepted:
  "\<not> wraps_one_list two_list_nav
   \<and> extractTocHeadings two_list_nav = Inr [\<lparr>depth = 0, htext = Some ''A'', slug = ''a''\<rparr>]"
  by (simp add: two_list_nav_def extractTocHeadings_def currentHeading_def)

section \<open>The transform pipeline: properties\<close>

text \<open>A call of \<^verbatim>\<open>process\<close> that nothing interrupts returns the headings of its own document.\<close>

lemma process_uninterrupted:
  assumes "processorPromise p = Inr processor"
    and "processor blocks = ReachesToc toc (Inr v)"
    and "extractTocHeadings toc = Inr hs"
  shows "fst (process blocks p) = Inr \<lparr>vFile = v, proc_headings = hs\<rparr>"
  using assms by (simp add: process_def process_start_def process_finish_def)

text \<open>
  A call for a document \<open>b\<close> that runs between the two stretches of a call for a document
  \<open>a\<close> leaves its own headings in the variable, and the call for \<open>a\<close> returns them.
\<close>

lemma process_overlapped:
  assumes "processorPromise p = Inr processor"
    and "processor a = ReachesToc toc_a (Inr v)"
    and "extractTocHeadings toc_a = Inr hs_a"
    and "processor b = ReachesToc toc_b settled_b"
    and "extractTocHeadings toc_b = Inr hs_b"
  shows "process_finish (fst (process_start a p)) (snd (process_start b (snd (process_start a p))))
    = Inr \<lparr>vFile = v, proc_headings = hs_b\<rparr>"
  using assms by (simp add: process_start_def process_finish_def)

text \<open>
  C1. The variable \<^verbatim>\<open>headings\<close> belongs to the built pipeline, not to a call. When a call for
  document B runs between the two stretches of a call for document A, the call for A returns
  its own html with the headings of B; uninterrupted, it returns its own headings.
\<close>

theorem overlapping_process_calls_leak:
  "process_finish (fst (process_start doc_a (buildProcessor (Inr demo_processor))))
     (snd (process_start doc_b (snd (process_start doc_a (buildProcessor (Inr demo_processor))))))
     = Inr \<lparr>vFile = ''alpha'', proc_headings = [\<lparr>depth = 0, htext = Some ''beta'', slug = ''beta''\<rparr>]\<rparr>
   \<and> fst (process doc_a (buildProcessor (Inr demo_processor)))
     = Inr \<lparr>vFile = ''alpha'', proc_headings = [\<lparr>depth = 0, htext = Some ''alpha'', slug = ''alpha''\<rparr>]\<rparr>"
  by (simp add: process_def process_start_def process_finish_def buildProcessor_def demo_processor_def
      doc_a_def doc_b_def nav_of_def extractTocHeadings_def currentHeading_def)

end
